theory Spec2Isabelle
  imports Main
begin

section \<open>Text and character classes\<close>

text \<open>
  The note mover of \<^verbatim>\<open>obs_note_mover.py\<close> works on Python strings. A note's text is
  modelled as a \<^typ>\<open>string\<close>, one \<^typ>\<open>char\<close> for each code point, which covers the
  code points below 256. The two character tables below are the ones Python's
  \<^verbatim>\<open>str.isspace\<close> (used by \<^verbatim>\<open>str.strip\<close> and by the pattern \<^verbatim>\<open>\s\<close>) and
  \<^verbatim>\<open>str.isalnum\<close> (used by the pattern \<^verbatim>\<open>\w\<close>) have on that range.
\<close>

definition code :: "char \<Rightarrow> nat" where
  "code c = of_char c"

definition isspace :: "char \<Rightarrow> bool" where
  "isspace c = (let n = code c in
     (9 \<le> n \<and> n \<le> 13) \<or> (28 \<le> n \<and> n \<le> 32) \<or> n = 133 \<or> n = 160)"

definition isalnum :: "char \<Rightarrow> bool" where
  "isalnum c = (let n = code c in
     (48 \<le> n \<and> n \<le> 57) \<or> (65 \<le> n \<and> n \<le> 90) \<or> (97 \<le> n \<and> n \<le> 122) \<or>
     n = 170 \<or> n = 178 \<or> n = 179 \<or> n = 181 \<or> n = 185 \<or> n = 186 \<or>
     (188 \<le> n \<and> n \<le> 190) \<or> (192 \<le> n \<and> n \<le> 214) \<or> (216 \<le> n \<and> n \<le> 246) \<or>
     248 \<le> n)"

text \<open>The pattern \<^verbatim>\<open>\w\<close>: an alphanumeric character or the underscore.\<close>

definition word_char :: "char \<Rightarrow> bool" where
  "word_char c = (isalnum c \<or> c = CHR ''_'')"

section \<open>Regular expressions\<close>

text \<open>
  The four compiled patterns of the script use literals, character classes, sequencing,
  ordered alternation, greedy and lazy repetition of a character class, the greedy
  optional group, the anchor \<^verbatim>\<open>^\<close> and one capturing group each. \<open>rx\<close> is that
  fragment of Python's pattern language.
\<close>

datatype rx =
    Lit char
  | Cls "char \<Rightarrow> bool"
  | Seq rx rx
  | Alt rx rx
  | Opt rx
  | Star "char \<Rightarrow> bool"
  | Plus "char \<Rightarrow> bool"
  | LazyStar "char \<Rightarrow> bool"
  | Bol
  | Cap rx

text \<open>
  A matcher state: whether the position is the start of the text, what is left of the
  text, and the text of group 1 when it has matched.
\<close>

type_synonym mstate = "bool \<times> string \<times> string option"

text \<open>
  Greedy repetition of a class: take one more character when possible, and come back to
  the shorter repetition when the rest of the pattern (the continuation \<open>k\<close>) fails.
\<close>

fun star :: "(char \<Rightarrow> bool) \<Rightarrow> (mstate \<Rightarrow> 'a option) \<Rightarrow> bool \<Rightarrow> string option \<Rightarrow> string
    \<Rightarrow> 'a option" where
  "star p k b g [] = k (b, [], g)"
| "star p k b g (c # cs) =
     (if p c then (case star p k False g cs of Some r \<Rightarrow> Some r | None \<Rightarrow> k (b, c # cs, g))
      else k (b, c # cs, g))"

text \<open>Lazy repetition: try the rest of the pattern first, take a character when it fails.\<close>

fun lazy_star :: "(char \<Rightarrow> bool) \<Rightarrow> (mstate \<Rightarrow> 'a option) \<Rightarrow> bool \<Rightarrow> string option \<Rightarrow> string
    \<Rightarrow> 'a option" where
  "lazy_star p k b g [] = k (b, [], g)"
| "lazy_star p k b g (c # cs) =
     (case k (b, c # cs, g) of Some r \<Rightarrow> Some r
      | None \<Rightarrow> if p c then lazy_star p k False g cs else None)"

text \<open>
  The backtracking matcher, in continuation-passing style: \<open>rmatch r k st\<close> is the first
  success, in the order a backtracking engine tries the alternatives, of \<open>r\<close> followed by
  \<open>k\<close>.
\<close>

fun rmatch :: "rx \<Rightarrow> (mstate \<Rightarrow> 'a option) \<Rightarrow> mstate \<Rightarrow> 'a option" where
  "rmatch (Lit c) k (b, s, g) =
     (case s of [] \<Rightarrow> None | x # xs \<Rightarrow> if x = c then k (False, xs, g) else None)"
| "rmatch (Cls p) k (b, s, g) =
     (case s of [] \<Rightarrow> None | x # xs \<Rightarrow> if p x then k (False, xs, g) else None)"
| "rmatch (Seq r1 r2) k st = rmatch r1 (\<lambda>st'. rmatch r2 k st') st"
| "rmatch (Alt r1 r2) k st =
     (case rmatch r1 k st of Some r \<Rightarrow> Some r | None \<Rightarrow> rmatch r2 k st)"
| "rmatch (Opt r) k st =
     (case rmatch r k st of Some res \<Rightarrow> Some res | None \<Rightarrow> k st)"
| "rmatch (Star p) k (b, s, g) = star p k b g s"
| "rmatch (Plus p) k (b, s, g) =
     (case s of [] \<Rightarrow> None | x # xs \<Rightarrow> if p x then star p k False g xs else None)"
| "rmatch (LazyStar p) k (b, s, g) = lazy_star p k b g s"
| "rmatch Bol k (b, s, g) = (if b then k (b, s, g) else None)"
| "rmatch (Cap r) k (b, s, g) =
     rmatch r (\<lambda>(b', s', g'). k (b', s', Some (take (length s - length s') s))) (b, s, g)"

text \<open>\<^verbatim>\<open>pattern.match(text)\<close>: a match at the start of the text; the result is group 1.\<close>

definition re_match :: "rx \<Rightarrow> string \<Rightarrow> string option" where
  "re_match r s =
     (case rmatch r Some (True, s, None) of
        None \<Rightarrow> None
      | Some (b, s', g) \<Rightarrow> Some (case g of None \<Rightarrow> [] | Some t \<Rightarrow> t))"

text \<open>
  \<^verbatim>\<open>pattern.findall(text)\<close> for a pattern with one group: scan from the left; at a match
  record group 1 and go on after the match, otherwise move one character on. The flag
  tells whether the position is the start of the text. An empty match moves one character
  on as well (no pattern of the script matches the empty string).
\<close>

function findall :: "rx \<Rightarrow> bool \<Rightarrow> string \<Rightarrow> string list" where
  "findall r b s =
     (case rmatch r Some (b, s, None) of
        None \<Rightarrow> (case s of [] \<Rightarrow> [] | x # xs \<Rightarrow> findall r False xs)
      | Some (b', s', g) \<Rightarrow>
          (case g of None \<Rightarrow> [] | Some t \<Rightarrow> t) #
          (if length s' < length s then findall r False s'
           else (case s of [] \<Rightarrow> [] | x # xs \<Rightarrow> findall r False xs)))"
  by pat_completeness auto
termination
  by (relation "measure (\<lambda>(r, b, s). length s)") auto

declare findall.simps [simp del]

section \<open>The patterns of the script\<close>

fun lits :: "string \<Rightarrow> rx \<Rightarrow> rx" where
  "lits [] r = r"
| "lits (c # cs) r = Seq (Lit c) (lits cs r)"

text \<open>\<^verbatim>\<open>WIKI_LINK_RE = !?\[\[([^\]|#]+)(?:\|[^\]]+)?(?:#[^\]]+)?\]\]\<close>\<close>

definition wiki_target_char :: "char \<Rightarrow> bool" where
  "wiki_target_char c = (c \<noteq> CHR '']'' \<and> c \<noteq> CHR ''|'' \<and> c \<noteq> CHR ''#'')"

definition not_rbracket :: "char \<Rightarrow> bool" where
  "not_rbracket c = (c \<noteq> CHR '']'')"

definition WIKI_LINK_RE :: rx where
  "WIKI_LINK_RE =
     Seq (Opt (Lit CHR ''!''))
    (Seq (Lit CHR ''['') (Seq (Lit CHR ''['')
    (Seq (Cap (Plus wiki_target_char))
    (Seq (Opt (Seq (Lit CHR ''|'') (Plus not_rbracket)))
    (Seq (Opt (Seq (Lit CHR ''#'') (Plus not_rbracket)))
    (Seq (Lit CHR '']'') (Lit CHR '']'')))))))"

text \<open>\<^verbatim>\<open>MD_LINK_RE = !?\[[^\]]*\]\(([^" \)]+)(?:\s+"[^"]*")?\)\<close>\<close>

definition md_target_char :: "char \<Rightarrow> bool" where
  "md_target_char c = (c \<noteq> CHR 0x22 \<and> c \<noteq> CHR '' '' \<and> c \<noteq> CHR '')'')"

definition not_dquote :: "char \<Rightarrow> bool" where
  "not_dquote c = (c \<noteq> CHR 0x22)"

definition MD_LINK_RE :: rx where
  "MD_LINK_RE =
     Seq (Opt (Lit CHR ''!''))
    (Seq (Lit CHR ''['') (Seq (Star not_rbracket)
    (Seq (Lit CHR '']'') (Seq (Lit CHR ''('')
    (Seq (Cap (Plus md_target_char))
    (Seq (Opt (Seq (Plus isspace) (Seq (Lit CHR 0x22) (Seq (Star not_dquote) (Lit CHR 0x22)))))
         (Lit CHR '')'')))))))"

text \<open>\<^verbatim>\<open>TAG_RE = (?:^|\s)#([\w-]+)\<close>\<close>

definition tag_char :: "char \<Rightarrow> bool" where
  "tag_char c = (word_char c \<or> c = CHR ''-'')"

definition TAG_RE :: rx where
  "TAG_RE = Seq (Alt Bol (Cls isspace)) (Seq (Lit CHR ''#'') (Cap (Plus tag_char)))"

text \<open>\<^verbatim>\<open>FRONTMATTER_RE = ^---\s*\n(.*?)\n---\s*\n\<close>, compiled with \<^verbatim>\<open>re.DOTALL\<close>.\<close>

definition any_char :: "char \<Rightarrow> bool" where
  "any_char c = True"

definition FRONTMATTER_RE :: rx where
  "FRONTMATTER_RE =
     Seq Bol (lits ''---'' (Seq (Star isspace) (Seq (Lit CHR 0x0A)
    (Seq (Cap (LazyStar any_char))
    (Seq (Lit CHR 0x0A) (lits ''---'' (Seq (Star isspace) (Lit CHR 0x0A))))))))"

section \<open>String operations of the Python library\<close>

text \<open>\<^verbatim>\<open>s.strip()\<close> removes the whitespace at both ends.\<close>

definition strip :: "string \<Rightarrow> string" where
  "strip s = rev (dropWhile isspace (rev (dropWhile isspace s)))"

text \<open>\<^verbatim>\<open>s.strip(chars)\<close> removes the characters of \<open>chars\<close> at both ends.\<close>

definition strip_chars :: "string \<Rightarrow> string \<Rightarrow> string" where
  "strip_chars chars s =
     rev (dropWhile (\<lambda>c. c \<in> set chars) (rev (dropWhile (\<lambda>c. c \<in> set chars) s)))"

text \<open>\<^verbatim>\<open>s.split(c)[0]\<close>: the text before the first \<open>c\<close>, all of \<open>s\<close> when there is none.\<close>

definition split_first :: "char \<Rightarrow> string \<Rightarrow> string" where
  "split_first c s = takeWhile (\<lambda>x. x \<noteq> c) s"

text \<open>\<^verbatim>\<open>s.split(c)\<close>: the pieces between the occurrences of \<open>c\<close>, empty ones included.\<close>

fun split_on :: "char \<Rightarrow> string \<Rightarrow> string list" where
  "split_on c [] = [[]]"
| "split_on c (x # xs) =
     (if x = c then [] # split_on c xs
      else (case split_on c xs of [] \<Rightarrow> [[x]] | y # ys \<Rightarrow> (x # y) # ys))"

text \<open>\<^verbatim>\<open>s.lower()\<close> on the code points below 256.\<close>

definition lower_char :: "char \<Rightarrow> char" where
  "lower_char c = (let n = code c in
     if (65 \<le> n \<and> n \<le> 90) \<or> (192 \<le> n \<and> n \<le> 222 \<and> n \<noteq> 215) then char_of (n + 32) else c)"

definition lower :: "string \<Rightarrow> string" where
  "lower s = map lower_char s"

text \<open>\<^verbatim>\<open>s.startswith(p)\<close>\<close>

fun startswith :: "string \<Rightarrow> string \<Rightarrow> bool" where
  "startswith s [] = True"
| "startswith [] (p # ps) = False"
| "startswith (c # cs) (p # ps) = (c = p \<and> startswith cs ps)"

text \<open>\<^verbatim>\<open>p in s\<close> for strings: \<open>p\<close> occurs in \<open>s\<close>.\<close>

fun contains :: "string \<Rightarrow> string \<Rightarrow> bool" where
  "contains [] p = (p = [])"
| "contains (c # cs) p = (startswith (c # cs) p \<or> contains cs p)"

text \<open>\<^verbatim>\<open>str(n)\<close> for a natural number.\<close>

fun str_nat :: "nat \<Rightarrow> string" where
  "str_nat n =
     (if n < 10 then [char_of (48 + n)] else str_nat (n div 10) @ [char_of (48 + n mod 10)])"

declare str_nat.simps [simp del]

section \<open>Paths\<close>

text \<open>
  A \<^verbatim>\<open>pathlib.Path\<close> on a POSIX system is its tuple of parts: the root \<^verbatim>\<open>/\<close> (or
  \<^verbatim>\<open>//\<close>) first when the path is absolute, then the components.
\<close>

type_synonym path = "string list"

definition is_root :: "string \<Rightarrow> bool" where
  "is_root x = (x = ''/'' \<or> x = ''//'')"

text \<open>
  \<^verbatim>\<open>Path(s)\<close>: empty components and \<^verbatim>\<open>.\<close> are dropped, \<^verbatim>\<open>..\<close> is kept; exactly two
  leading slashes make the root \<^verbatim>\<open>//\<close>.
\<close>

definition parse_path :: "string \<Rightarrow> path" where
  "parse_path s =
     (let comps = filter (\<lambda>p. p \<noteq> [] \<and> p \<noteq> ''.'') (split_on CHR ''/'' s)
      in if startswith s ''/''
         then (if startswith s ''//'' \<and> \<not> startswith s ''///'' then ''//'' else ''/'') # comps
         else comps)"

text \<open>\<^verbatim>\<open>p / s\<close>: an absolute \<open>s\<close> replaces \<open>p\<close>.\<close>

definition joinpath :: "path \<Rightarrow> string \<Rightarrow> path" where
  "joinpath p s = (if startswith s ''/'' then parse_path s else p @ parse_path s)"

text \<open>\<^verbatim>\<open>p.name\<close>: the last part, empty for the root and for the empty path.\<close>

definition path_name :: "path \<Rightarrow> string" where
  "path_name p =
     (case p of [] \<Rightarrow> [] | x # xs \<Rightarrow> if xs = [] \<and> is_root x then [] else last p)"

text \<open>
  \<^verbatim>\<open>p.suffix\<close> and \<^verbatim>\<open>p.stem\<close>: the name is cut at its last dot, unless that dot is the
  first or the last character of the name.
\<close>

definition dot_index :: "string \<Rightarrow> nat option" where
  "dot_index n =
     (if CHR ''.'' \<in> set n
      then (let i = length n - length (takeWhile (\<lambda>c. c \<noteq> CHR ''.'') (rev n)) - 1
            in if 0 < i \<and> i < length n - 1 then Some i else None)
      else None)"

definition suffix :: "path \<Rightarrow> string" where
  "suffix p = (case dot_index (path_name p) of None \<Rightarrow> [] | Some i \<Rightarrow> drop i (path_name p))"

definition stem :: "path \<Rightarrow> string" where
  "stem p =
     (case dot_index (path_name p) of None \<Rightarrow> path_name p | Some i \<Rightarrow> take i (path_name p))"

section \<open>The environment\<close>

text \<open>
  What the script asks of the library and of the file system while it scans:
  \<^verbatim>\<open>urllib.parse.unquote\<close>, \<^verbatim>\<open>Path.resolve\<close>, \<^verbatim>\<open>Path.is_file\<close>,
  \<^verbatim>\<open>Path.read_text\<close>, \<^verbatim>\<open>Path.stat().st_size\<close> and \<^verbatim>\<open>yaml.safe_load\<close>. They are
  parameters of the model. Every call but \<^verbatim>\<open>unquote\<close> can raise: \<^verbatim>\<open>Path.resolve\<close> and
  \<^verbatim>\<open>Path.is_file\<close> give \<open>Inl\<close> of the exception (a \<^verbatim>\<open>ValueError\<close> for a NUL character
  in the path, an \<^verbatim>\<open>OSError\<close> for a name the file system refuses), the three others
  \<open>None\<close>.
\<close>

datatype error = IndexError | ValueError | OSError | FileNotFoundError

datatype yaml = YStr string | YSeq "yaml list" | YMap "(yaml \<times> yaml) list" | YOther

record env =
  unquote :: "string \<Rightarrow> string"
  resolve :: "path \<Rightarrow> error + path"
  is_file :: "path \<Rightarrow> error + bool"
  read_text :: "path \<Rightarrow> string option"
  st_size :: "path \<Rightarrow> nat option"
  safe_load :: "string \<Rightarrow> yaml option"

section \<open>Resolving an attachment\<close>

text \<open>The basic cleaning at the head of \<^verbatim>\<open>resolve_attachment\<close>.\<close>

definition clean_link :: "env \<Rightarrow> string \<Rightarrow> string" where
  "clean_link e link =
     (let link1 = strip (unquote e link)
      in split_first CHR ''?'' (split_first CHR ''#'' link1))"

text \<open>
  The inner function \<^verbatim>\<open>proximity\<close>: the number of leading parts of \<open>p\<close> equal to those of
  the note's directory, up to the first difference.
\<close>

fun proximity :: "path \<Rightarrow> path \<Rightarrow> nat" where
  "proximity (a # as) (b # bs) = (if a = b then Suc (proximity as bs) else 0)"
| "proximity [] bs = 0"
| "proximity as [] = 0"

text \<open>
  \<^verbatim>\<open>max(xs, key=f)\<close>: the running maximum is replaced only by a strictly greater key.
\<close>

fun max_from :: "('a \<Rightarrow> nat) \<Rightarrow> 'a \<Rightarrow> 'a list \<Rightarrow> 'a" where
  "max_from f best [] = best"
| "max_from f best (x # xs) = (if f best < f x then max_from f x xs else max_from f best xs)"

text \<open>
  \<^verbatim>\<open>resolve_attachment\<close>. Nothing in it catches an exception: one raised by
  \<^verbatim>\<open>resolve()\<close>, by \<^verbatim>\<open>is_file()\<close> or by \<^verbatim>\<open>candidates[0]\<close> leaves the function.
\<close>

definition resolve_attachment ::
  "env \<Rightarrow> string \<Rightarrow> path \<Rightarrow> path \<Rightarrow> (string \<rightharpoonup> path list) \<Rightarrow> error + path option" where
  "resolve_attachment e link0 note_dir vault_root vault_index =
     (let link = clean_link e link0 in
      if link = [] then Inr None
      else
        (case resolve e (joinpath note_dir link) of
           Inl err \<Rightarrow> Inl err
         | Inr path_rel \<Rightarrow>
        (case is_file e path_rel of
           Inl err \<Rightarrow> Inl err
         | Inr rel_is_file \<Rightarrow>
        if rel_is_file then Inr (Some path_rel)
        else
        (case resolve e (joinpath vault_root link) of
           Inl err \<Rightarrow> Inl err
         | Inr path_vault \<Rightarrow>
        (case is_file e path_vault of
           Inl err \<Rightarrow> Inl err
         | Inr vault_is_file \<Rightarrow>
        if vault_is_file then Inr (Some path_vault)
        else
          let filename = path_name (parse_path link);
              lower_name = lower filename
          in (case vault_index lower_name of
                None \<Rightarrow> Inr None
              | Some candidates \<Rightarrow>
                  if 1 < length candidates
                  then Inr (Some (max_from (\<lambda>p. proximity p note_dir)
                                    (hd candidates) (tl candidates)))
                  else (case candidates of
                          [] \<Rightarrow> Inl IndexError
                        | c # cs \<Rightarrow> Inr (Some c))))))))"

section \<open>Inline tags\<close>

text \<open>\<^verbatim>\<open>TAG_RE.findall(text)\<close>, the inline tags of \<^verbatim>\<open>process_note\<close>.\<close>

definition inline_tags :: "string \<Rightarrow> string list" where
  "inline_tags text = findall TAG_RE True text"

text \<open>
  The tag rule in words, for a class \<open>wc\<close> of word characters: a \<^verbatim>\<open>#\<close> at the start of
  the text or after a whitespace character, followed by at least one word character, gives
  the longest run of word characters after it. \<open>pre\<close> tells whether the position is the
  start of the text or follows a whitespace character.
\<close>

function tag_scan :: "(char \<Rightarrow> bool) \<Rightarrow> bool \<Rightarrow> string \<Rightarrow> string list" where
  "tag_scan wc pre [] = []"
| "tag_scan wc pre (c # cs) =
     (if pre \<and> c = CHR ''#'' \<and> (case cs of [] \<Rightarrow> False | w # r \<Rightarrow> wc w)
      then takeWhile wc cs # tag_scan wc False (dropWhile wc cs)
      else tag_scan wc (isspace c) cs)"
  by pat_completeness auto
termination
  by (relation "measure (\<lambda>(wc, pre, s). length s)")
     (auto simp: length_dropWhile_le less_Suc_eq_le)

declare tag_scan.simps [simp del]

text \<open>The word characters of the specification's tag rule: letters, digits and the hyphen.\<close>

definition spec_tag_char :: "char \<Rightarrow> bool" where
  "spec_tag_char c = (isalnum c \<or> c = CHR ''-'')"

text \<open>
  The body of a note, which the specification names as the place of the inline tags: the
  text behind the front-matter block, the whole text when there is no such block.
\<close>

definition body_of :: "string \<Rightarrow> string" where
  "body_of text =
     (case rmatch FRONTMATTER_RE Some (True, text, None) of
        None \<Rightarrow> text
      | Some (b, rest, g) \<Rightarrow> rest)"

section \<open>Scanning a note\<close>

text \<open>
  \<^verbatim>\<open>extract_frontmatter_links\<close>. A mapping of the parser is the list of its items in
  order. The loop over the items runs inside \<^verbatim>\<open>try\<close>: a key that is not a string makes
  \<^verbatim>\<open>key.lower()\<close> raise, which ends the loop and keeps the links found so far.
\<close>

definition target_keys :: "string list" where
  "target_keys = [''image'', ''cover'', ''banner'', ''file'', ''attachment'', ''thumbnail'']"

fun value_links :: "yaml \<Rightarrow> string list" where
  "value_links (YStr s) = [strip_chars ''[]!'' s]"
| "value_links (YSeq items) =
     concat (map (\<lambda>item. case item of YStr s \<Rightarrow> [strip_chars ''[]!'' s] | _ \<Rightarrow> []) items)"
| "value_links v = []"

fun item_links :: "(yaml \<times> yaml) list \<Rightarrow> string list" where
  "item_links [] = []"
| "item_links ((k, v) # rest) =
     (case k of
        YStr key \<Rightarrow>
          (if list_ex (\<lambda>tk. contains (lower key) tk) target_keys then value_links v else [])
          @ item_links rest
      | _ \<Rightarrow> [])"

definition extract_frontmatter_links :: "env \<Rightarrow> string \<Rightarrow> string list" where
  "extract_frontmatter_links e text =
     (case re_match FRONTMATTER_RE text of
        None \<Rightarrow> []
      | Some block \<Rightarrow>
          (case safe_load e block of
             Some (YMap items) \<Rightarrow> item_links items
           | _ \<Rightarrow> []))"

text \<open>
  \<^verbatim>\<open>find_attachments\<close>. An exception of \<^verbatim>\<open>resolve_attachment\<close> leaves the function.
  \<^verbatim>\<open>list(set(attachments))\<close> holds each path once, in an order Python does not fix; the
  model takes the order of first occurrence.
\<close>

definition is_external :: "string \<Rightarrow> bool" where
  "is_external link =
     (startswith link ''http://'' \<or> startswith link ''https://'' \<or> startswith link ''//'' \<or>
      startswith link ''mailto:'')"

fun resolve_links ::
  "env \<Rightarrow> path \<Rightarrow> path \<Rightarrow> (string \<rightharpoonup> path list) \<Rightarrow> string list \<Rightarrow> error + path list" where
  "resolve_links e note_dir vault_root vault_index [] = Inr []"
| "resolve_links e note_dir vault_root vault_index (link # links) =
     (if is_external link then resolve_links e note_dir vault_root vault_index links
      else
        (case resolve_attachment e link note_dir vault_root vault_index of
           Inl err \<Rightarrow> Inl err
         | Inr resolved \<Rightarrow>
             (case resolve_links e note_dir vault_root vault_index links of
                Inl err \<Rightarrow> Inl err
              | Inr attachments \<Rightarrow>
                  (case resolved of
                     None \<Rightarrow> Inr attachments
                   | Some p \<Rightarrow>
                       if lower (suffix p) \<noteq> ''.md'' then Inr (p # attachments)
                       else Inr attachments))))"

definition find_attachments ::
  "env \<Rightarrow> string \<Rightarrow> path \<Rightarrow> path \<Rightarrow> (string \<rightharpoonup> path list) \<Rightarrow> error + path list" where
  "find_attachments e text note_dir vault_root vault_index =
     (let links = findall WIKI_LINK_RE True text @ findall MD_LINK_RE True text
                  @ extract_frontmatter_links e text
      in (case resolve_links e note_dir vault_root vault_index links of
            Inl err \<Rightarrow> Inl err
          | Inr attachments \<Rightarrow> Inr (remdups attachments)))"

text \<open>
  The tags \<^verbatim>\<open>process_note\<close> takes from the front matter: the \<^verbatim>\<open>tags\<close> entry of the
  parsed mapping, a string or a list whose strings count, each after \<^verbatim>\<open>strip('#')\<close>. A
  parser exception is swallowed and gives no tags.
\<close>

definition frontmatter_tags :: "env \<Rightarrow> string \<Rightarrow> string list" where
  "frontmatter_tags e text =
     (case re_match FRONTMATTER_RE text of
        None \<Rightarrow> []
      | Some block \<Rightarrow>
          (case safe_load e block of
             Some (YMap items) \<Rightarrow>
               (case map_of items (YStr ''tags'') of
                  Some (YStr s) \<Rightarrow> [strip_chars ''#'' s]
                | Some (YSeq ts) \<Rightarrow>
                    concat (map (\<lambda>t. case t of YStr s \<Rightarrow> [strip_chars ''#'' s] | _ \<Rightarrow> []) ts)
                | _ \<Rightarrow> [])
           | _ \<Rightarrow> []))"

definition note_tags :: "env \<Rightarrow> string \<Rightarrow> string set" where
  "note_tags e text = set (inline_tags text) \<union> set (frontmatter_tags e text)"

text \<open>\<^verbatim>\<open>p.parent\<close>\<close>

definition parent :: "path \<Rightarrow> path" where
  "parent p = (case p of [] \<Rightarrow> [] | x # xs \<Rightarrow> if xs = [] \<and> is_root x then p else butlast p)"

record note_metadata =
  path :: path
  matched_tags :: "string list"
  attachments :: "path list"
  note_size :: nat

text \<open>
  \<^verbatim>\<open>process_note\<close>. The set \<^verbatim>\<open>target_tags\<close> is given as the list of its elements, and
  \<^verbatim>\<open>list(target_tags.intersection(note_tags))\<close> keeps that order (Python fixes none).
  Every exception makes the function return \<^verbatim>\<open>None\<close>.
\<close>

definition process_note ::
  "env \<Rightarrow> path \<Rightarrow> string list \<Rightarrow> path \<Rightarrow> (string \<rightharpoonup> path list) \<Rightarrow> note_metadata option" where
  "process_note e note_path target_tags vault_root vault_index =
     (case read_text e note_path of
        None \<Rightarrow> None
      | Some text \<Rightarrow>
          (let matched = filter (\<lambda>t. t \<in> note_tags e text) target_tags in
           if matched = [] then None
           else
             (case find_attachments e text (parent note_path) vault_root vault_index of
                Inl err \<Rightarrow> None
              | Inr atts \<Rightarrow>
                  (case st_size e note_path of
                     None \<Rightarrow> None
                   | Some n \<Rightarrow>
                       Some \<lparr> path = note_path, matched_tags = matched,
                              attachments = atts, note_size = n \<rparr>))))"

section \<open>The move phase\<close>

text \<open>
  The state of the loop at the end of \<^verbatim>\<open>main\<close>: the regular files on disk and the three
  counters. The entries the loop meets are regular files; directories are not tracked.
  What the operating system may refuse is a parameter: \<open>stat_raises p\<close> tells that
  \<^verbatim>\<open>p.exists()\<close> raises (a name the file system refuses), \<open>move_raises src dst\<close> that
  moving the present file \<open>src\<close> to \<open>dst\<close> raises (no permission, disk full).
\<close>

record io =
  stat_raises :: "path \<Rightarrow> bool"
  move_raises :: "path \<Rightarrow> path \<Rightarrow> bool"

record run_state =
  files :: "path set"
  moved_notes :: nat
  moved_atts :: nat
  errors :: nat

text \<open>\<^verbatim>\<open>p.exists()\<close>\<close>

definition path_exists :: "io \<Rightarrow> path set \<Rightarrow> path \<Rightarrow> error + bool" where
  "path_exists sys fs p = (if stat_raises sys p then Inl OSError else Inr (p \<in> fs))"

text \<open>
  \<^verbatim>\<open>shutil.move(src, dst)\<close> renames the file \<open>src\<close> to \<open>dst\<close>, replacing a file already
  there, and raises when \<open>src\<close> is missing.
\<close>

definition shutil_move :: "io \<Rightarrow> path \<Rightarrow> path \<Rightarrow> path set \<Rightarrow> error + path set" where
  "shutil_move sys src dst fs =
     (if src \<notin> fs then Inl FileNotFoundError
      else if move_raises sys src dst then Inl OSError
      else Inr (insert dst (fs - {src})))"

text \<open>
  The inner loop over the attachments of one note. The result tells whether an exception
  left the loop; the changes made before it stay.
\<close>

fun move_attachments ::
  "io \<Rightarrow> path \<Rightarrow> path list \<Rightarrow> run_state \<Rightarrow> error option \<times> run_state" where
  "move_attachments sys dest_dir [] st = (None, st)"
| "move_attachments sys dest_dir (att # atts) st =
     (case path_exists sys (files st) att of
        Inl err \<Rightarrow> (Some err, st)
      | Inr att_exists \<Rightarrow>
     if \<not> att_exists then move_attachments sys dest_dir atts st
     else
       (let dest_att = joinpath dest_dir (path_name att) in
        (case path_exists sys (files st) dest_att of
           Inl err \<Rightarrow> (Some err, st)
         | Inr dest_exists \<Rightarrow>
        if \<not> dest_exists then
          (case shutil_move sys att dest_att (files st) of
             Inl err \<Rightarrow> (Some err, st)
           | Inr fs \<Rightarrow>
               move_attachments sys dest_dir atts
                 (st\<lparr>files := fs, moved_atts := moved_atts st + 1\<rparr>))
        else move_attachments sys dest_dir atts st)))"

text \<open>The body of the loop for the note at position \<open>i\<close>, with its \<^verbatim>\<open>try\<close> and \<^verbatim>\<open>except\<close>.\<close>

definition move_note :: "io \<Rightarrow> path \<Rightarrow> nat \<Rightarrow> note_metadata \<Rightarrow> run_state \<Rightarrow> run_state" where
  "move_note sys dest_dir i note st =
     (case move_attachments sys dest_dir (attachments note) st of
        (Some err, st1) \<Rightarrow> st1\<lparr>errors := errors st1 + 1\<rparr>
      | (None, st1) \<Rightarrow>
          (let dest_note0 = joinpath dest_dir (path_name (path note)) in
           (case path_exists sys (files st1) dest_note0 of
              Inl err \<Rightarrow> st1\<lparr>errors := errors st1 + 1\<rparr>
            | Inr taken \<Rightarrow>
                (let dest_note =
                       (if taken
                        then joinpath dest_dir
                               (stem (path note) @ ''_'' @ str_nat i @ suffix (path note))
                        else dest_note0)
                 in (case shutil_move sys (path note) dest_note (files st1) of
                       Inl err \<Rightarrow> st1\<lparr>errors := errors st1 + 1\<rparr>
                     | Inr fs \<Rightarrow> st1\<lparr>files := fs, moved_notes := moved_notes st1 + 1\<rparr>)))))"

text \<open>\<^verbatim>\<open>for i, note in enumerate(notes, 1)\<close>\<close>

fun move_loop :: "io \<Rightarrow> path \<Rightarrow> nat \<Rightarrow> note_metadata list \<Rightarrow> run_state \<Rightarrow> run_state" where
  "move_loop sys dest_dir i [] st = st"
| "move_loop sys dest_dir i (note # notes) st =
     move_loop sys dest_dir (i + 1) notes (move_note sys dest_dir i note st)"

definition move_all :: "io \<Rightarrow> path \<Rightarrow> note_metadata list \<Rightarrow> path set \<Rightarrow> run_state" where
  "move_all sys dest_dir notes fs =
     move_loop sys dest_dir 1 notes \<lparr>files = fs, moved_notes = 0, moved_atts = 0, errors = 0\<rparr>"

section \<open>A concrete environment\<close>

text \<open>
  Instances of the environment's parameters, for evaluating the model on examples.
  \<open>unquote_ascii\<close> decodes the escapes \<^verbatim>\<open>%00\<close> to \<^verbatim>\<open>%7F\<close> and leaves every other
  percent sign in place, as \<^verbatim>\<open>urllib.parse.unquote\<close> does on a text with no escape of a
  byte above \<^verbatim>\<open>7F\<close>. \<open>normpath\<close> removes \<^verbatim>\<open>..\<close> with the part before it, as
  \<^verbatim>\<open>Path.resolve\<close> does for an absolute path on a file system without symbolic links.
  As on Linux, \<^verbatim>\<open>resolve\<close> raises \<^verbatim>\<open>ValueError\<close> for a path with a NUL character, and
  \<^verbatim>\<open>is_file\<close> and \<^verbatim>\<open>exists\<close> raise \<^verbatim>\<open>OSError\<close> for a path with a component of more
  than 255 characters.
\<close>

definition has_nul :: "path \<Rightarrow> bool" where
  "has_nul p = list_ex (\<lambda>c. CHR 0x00 \<in> set c) p"

definition name_too_long :: "path \<Rightarrow> bool" where
  "name_too_long p = list_ex (\<lambda>c. 255 < length c) p"

definition hexval :: "char \<Rightarrow> nat option" where
  "hexval c = (let n = code c in
     if 48 \<le> n \<and> n \<le> 57 then Some (n - 48)
     else if 65 \<le> n \<and> n \<le> 70 then Some (n - 55)
     else if 97 \<le> n \<and> n \<le> 102 then Some (n - 87)
     else None)"

fun unquote_ascii :: "string \<Rightarrow> string" where
  "unquote_ascii (c # h1 # h2 # cs) =
     (if c = CHR ''%'' then
        (case (hexval h1, hexval h2) of
           (Some a, Some b) \<Rightarrow>
             if 16 * a + b < 128 then char_of (16 * a + b) # unquote_ascii cs
             else c # unquote_ascii (h1 # h2 # cs)
         | _ \<Rightarrow> c # unquote_ascii (h1 # h2 # cs))
      else c # unquote_ascii (h1 # h2 # cs))"
| "unquote_ascii cs = cs"

definition normstep :: "path \<Rightarrow> string \<Rightarrow> path" where
  "normstep acc x =
     (if x = ''..'' then
        (case acc of [] \<Rightarrow> [x] | r # rest \<Rightarrow> if rest = [] \<and> is_root r then acc else butlast acc)
      else acc @ [x])"

definition normpath :: "path \<Rightarrow> path" where
  "normpath p = foldl normstep [] p"

text \<open>
  The environment of a file system holding the files \<open>fs\<close>, of which the notes
  \<open>notes\<close> have the given texts, with a front-matter parser that knows the blocks
  \<open>docs\<close> and raises on any other.
\<close>

definition example_env :: "path list \<Rightarrow> (path \<times> string) list \<Rightarrow> (string \<times> yaml) list \<Rightarrow> env" where
  "example_env fs notes docs =
     \<lparr> unquote = unquote_ascii,
       resolve = (\<lambda>p. if has_nul p then Inl ValueError else Inr (normpath p)),
       is_file = (\<lambda>p. if name_too_long p then Inl OSError else Inr (p \<in> set fs)),
       read_text = map_of notes,
       st_size = (\<lambda>p. map_option length (map_of notes p)),
       safe_load = map_of docs \<rparr>"

text \<open>The operating system of the move phase, with the same limit on names.\<close>

definition example_io :: io where
  "example_io = \<lparr> stat_raises = name_too_long, move_raises = (\<lambda>src dst. name_too_long dst) \<rparr>"

text \<open>
  The cleaning in the order the specification gives it: decode, cut the fragment and the
  query, then strip the whitespace.
\<close>

definition clean_link_spec :: "env \<Rightarrow> string \<Rightarrow> string" where
  "clean_link_spec e link =
     strip (split_first CHR ''?'' (split_first CHR ''#'' (unquote e link)))"

section \<open>Example data\<close>

text \<open>The vault of the specification's example: two files named \<^verbatim>\<open>img.png\<close>.\<close>

definition img_a :: path where
  "img_a = [''/'', ''vault'', ''a'', ''img.png'']"

definition img_b :: path where
  "img_b = [''/'', ''vault'', ''b'', ''img.png'']"

definition img_index :: "string \<rightharpoonup> path list" where
  "img_index = [''img.png'' \<mapsto> [img_a, img_b]]"

definition img_env :: env where
  "img_env = example_env [img_a, img_b] [] []"

definition empty_env :: env where
  "empty_env = example_env [] [] []"

text \<open>A note whose body holds two inline tags and no front matter.\<close>

definition ready_note :: path where
  "ready_note = [''/'', ''vault'', ''ready.md'']"

definition ready_env :: env where
  "ready_env = example_env [ready_note] [(ready_note, ''#ready and #draft'')] []"

text \<open>
  A note with the front matter \<^verbatim>\<open>tags: [ready, archive]\<close> and no inline tag, and a note
  with the front matter \<^verbatim>\<open>tags: c#\<close>.
\<close>

definition fm_note :: path where
  "fm_note = [''/'', ''vault'', ''fm.md'']"

definition fm_text :: string where
  "fm_text = ''---'' @ [CHR 0x0A] @ ''tags: [ready, archive]'' @ [CHR 0x0A] @ ''---'' @ [CHR 0x0A]
             @ ''plain body''"

definition sharp_note :: path where
  "sharp_note = [''/'', ''vault'', ''sharp.md'']"

definition sharp_text :: string where
  "sharp_text = ''---'' @ [CHR 0x0A] @ ''tags: c#'' @ [CHR 0x0A] @ ''---'' @ [CHR 0x0A]
                @ ''plain body''"

definition fm_env :: env where
  "fm_env = example_env [fm_note, sharp_note] [(fm_note, fm_text), (sharp_note, sharp_text)]
     [(''tags: [ready, archive]'', YMap [(YStr ''tags'', YSeq [YStr ''ready'', YStr ''archive''])]),
      (''tags: c#'', YMap [(YStr ''tags'', YStr ''c#'')])]"

text \<open>The specification's reading of the front-matter tag: one leading \<^verbatim>\<open>#\<close> is removed.\<close>

definition strip_leading_hash :: "string \<Rightarrow> string" where
  "strip_leading_hash s = (case s of [] \<Rightarrow> [] | c # cs \<Rightarrow> if c = CHR ''#'' then cs else s)"


definition collide_state :: run_state where
  "collide_state =
     \<lparr>files = set [[''/'', ''v'', ''n.md''], [''/'', ''v'', ''a.png''],
                   [''/'', ''d'', ''n.md''], [''/'', ''d'', ''a.png'']],
      moved_notes = 0, moved_atts = 0, errors = 0\<rparr>"

definition note_one :: note_metadata where
  "note_one = \<lparr>path = [''/'', ''v'', ''one.md''], matched_tags = [''ready''],
                attachments = [[''/'', ''v'', ''shared.png'']], note_size = 10\<rparr>"

definition note_two :: note_metadata where
  "note_two = \<lparr>path = [''/'', ''v'', ''two.md''], matched_tags = [''ready''],
                attachments = [[''/'', ''v'', ''shared.png'']], note_size = 12\<rparr>"

text \<open>An operating system that refuses nothing.\<close>

definition calm_io :: io where
  "calm_io = \<lparr> stat_raises = (\<lambda>p. False), move_raises = (\<lambda>src dst. False) \<rparr>"

definition shared_files :: "path set" where
  "shared_files = set [[''/'', ''v'', ''one.md''], [''/'', ''v'', ''two.md''],
                       [''/'', ''v'', ''shared.png'']]"

text \<open>
  A name of 300 characters, longer than the file system takes, and a vault root with such
  a component; a root with a NUL character.
\<close>

definition long_name :: string where
  "long_name = replicate 300 CHR ''a''"

definition long_root :: path where
  "long_root = [''/'', long_name]"

definition nul_root :: path where
  "nul_root = [''/'', [CHR 0x00]]"

text \<open>
  A note whose front matter holds a \<^verbatim>\<open>#draft\<close> behind a space (a comment for the
  front-matter parser) and whose body holds no tag.
\<close>

definition draft_note :: path where
  "draft_note = [''/'', ''vault'', ''draft.md'']"

definition draft_text :: string where
  "draft_text = ''---'' @ [CHR 0x0A] @ ''title: plan #draft'' @ [CHR 0x0A] @ ''---'' @ [CHR 0x0A]
                @ ''body without tags''"

definition draft_env :: env where
  "draft_env = example_env [draft_note] [(draft_note, draft_text)]
     [(''title: plan #draft'', YMap [(YStr ''title'', YStr ''plan'')])]"

section \<open>Verification\<close>

lemma proximity_common_prefix:
  "proximity p d = length (takeWhile (\<lambda>(a, b). a = b) (zip p d))"
  by (induction p d rule: proximity.induct) auto

lemma max_from_general:
  assumes "\<forall>y\<in>set pre. f y < f b" and "\<forall>y\<in>set mid. f y \<le> f b"
  shows "\<exists>i<length (pre @ b # mid @ xs).
           max_from f b xs = (pre @ b # mid @ xs) ! i \<and>
           (\<forall>j<length (pre @ b # mid @ xs). f ((pre @ b # mid @ xs) ! j) \<le> f ((pre @ b # mid @ xs) ! i)) \<and>
           (\<forall>j<i. f ((pre @ b # mid @ xs) ! j) < f ((pre @ b # mid @ xs) ! i))"
  using assms
proof (induction xs arbitrary: pre b mid)
  case Nil
  let ?l = "pre @ b # mid"
  have at: "?l ! length pre = b" by simp
  have le: "\<forall>j<length ?l. f (?l ! j) \<le> f b"
  proof (intro allI impI)
    fix j assume "j < length ?l"
    then have "?l ! j \<in> set ?l" by (rule nth_mem)
    then show "f (?l ! j) \<le> f b" using Nil by (auto simp: less_imp_le)
  qed
  have lt: "\<forall>j<length pre. f (?l ! j) < f b"
    using Nil(1) by (simp add: nth_append)
  show ?case
    apply (rule exI [of _ "length pre"])
    using at le lt by simp
next
  case (Cons x xs)
  show ?case
  proof (cases "f b < f x")
    case True
    have p1: "\<forall>y\<in>set (pre @ b # mid). f y < f x"
      using Cons.prems True by auto
    have p2: "\<forall>y\<in>set []. f y \<le> f x" by simp
    from Cons.IH [OF p1 p2] True show ?thesis by simp
  next
    case False
    have p2: "\<forall>y\<in>set (mid @ [x]). f y \<le> f b"
      using Cons.prems False by auto
    from Cons.IH [OF Cons.prems(1) p2] False show ?thesis by simp
  qed
qed

lemma max_from_first_maximum:
  assumes "cands \<noteq> []"
  shows "\<exists>i<length cands.
           max_from f (hd cands) (tl cands) = cands ! i \<and>
           (\<forall>j<length cands. f (cands ! j) \<le> f (cands ! i)) \<and>
           (\<forall>j<i. f (cands ! j) < f (cands ! i))"
proof -
  obtain c cs where c: "cands = c # cs" using assms by (cases cands) auto
  have "\<forall>y\<in>set ([]::'a list). f y < f c" "\<forall>y\<in>set ([]::'a list). f y \<le> f c" by simp_all
  from max_from_general [OF this, of cs] show ?thesis by (simp add: c)
qed


lemma resolve_attachment_index:
  assumes "clean_link e link \<noteq> []"
    and "resolve e (joinpath note_dir (clean_link e link)) = Inr p1"
    and "is_file e p1 = Inr False"
    and "resolve e (joinpath vault_root (clean_link e link)) = Inr p2"
    and "is_file e p2 = Inr False"
  shows "resolve_attachment e link note_dir vault_root vault_index =
           (case vault_index (lower (path_name (parse_path (clean_link e link)))) of
              None \<Rightarrow> Inr None
            | Some candidates \<Rightarrow>
                if 1 < length candidates
                then Inr (Some (max_from (\<lambda>p. proximity p note_dir) (hd candidates) (tl candidates)))
                else (case candidates of [] \<Rightarrow> Inl IndexError | c # cs \<Rightarrow> Inr (Some c)))"
  using assms by (simp add: resolve_attachment_def Let_def)

text \<open>
  C1. When the name-only lookup is reached (both joins resolve to paths that are not
  files) and the index holds several candidates for the lowercased file name, the result
  is a candidate whose count of leading parts shared with the note's directory (the length
  of the common prefix of the two part sequences) is the greatest, and every candidate
  before it in the index list has a strictly smaller count. With the index
  \<^verbatim>\<open>{"img.png": [/vault/a/img.png, /vault/b/img.png]}\<close> and the note directory
  \<^verbatim>\<open>/vault/a\<close> the lookup returns \<^verbatim>\<open>/vault/a/img.png\<close>.
\<close>

theorem resolve_attachment_proximity:
  "(clean_link e link \<noteq> [] \<and>
    resolve e (joinpath note_dir (clean_link e link)) = Inr p1 \<and> is_file e p1 = Inr False \<and>
    resolve e (joinpath vault_root (clean_link e link)) = Inr p2 \<and> is_file e p2 = Inr False \<and>
    vault_index (lower (path_name (parse_path (clean_link e link)))) = Some cands \<and>
    1 < length cands
    \<longrightarrow> (\<exists>i<length cands.
           resolve_attachment e link note_dir vault_root vault_index = Inr (Some (cands ! i)) \<and>
           (\<forall>j<length cands. proximity (cands ! j) note_dir \<le> proximity (cands ! i) note_dir) \<and>
           (\<forall>j<i. proximity (cands ! j) note_dir < proximity (cands ! i) note_dir))) \<and>
   proximity p note_dir = length (takeWhile (\<lambda>(a, b). a = b) (zip p note_dir)) \<and>
   (unquote e ''img.png'' = ''img.png'' \<and>
    resolve e [''/'', ''vault'', ''a'', ''img.png''] = Inr q1 \<and> is_file e q1 = Inr False \<and>
    resolve e [''/'', ''vault'', ''img.png''] = Inr q2 \<and> is_file e q2 = Inr False
    \<longrightarrow> resolve_attachment e ''img.png'' [''/'', ''vault'', ''a''] [''/'', ''vault'']
          [''img.png'' \<mapsto> [[''/'', ''vault'', ''a'', ''img.png''], [''/'', ''vault'', ''b'', ''img.png'']]]
        = Inr (Some [''/'', ''vault'', ''a'', ''img.png'']))"
proof (intro conjI impI)
  assume h: "clean_link e link \<noteq> [] \<and>
    resolve e (joinpath note_dir (clean_link e link)) = Inr p1 \<and> is_file e p1 = Inr False \<and>
    resolve e (joinpath vault_root (clean_link e link)) = Inr p2 \<and> is_file e p2 = Inr False \<and>
    vault_index (lower (path_name (parse_path (clean_link e link)))) = Some cands \<and>
    1 < length cands"
  then have ne: "cands \<noteq> []" by auto
  have res: "resolve_attachment e link note_dir vault_root vault_index =
      Inr (Some (max_from (\<lambda>p. proximity p note_dir) (hd cands) (tl cands)))"
    using h by (simp add: resolve_attachment_index [of e link note_dir p1 vault_root p2])
  from max_from_first_maximum [OF ne, of "\<lambda>p. proximity p note_dir"]
  show "\<exists>i<length cands.
           resolve_attachment e link note_dir vault_root vault_index = Inr (Some (cands ! i)) \<and>
           (\<forall>j<length cands. proximity (cands ! j) note_dir \<le> proximity (cands ! i) note_dir) \<and>
           (\<forall>j<i. proximity (cands ! j) note_dir < proximity (cands ! i) note_dir)"
    unfolding res by simp
next
  show "proximity p note_dir = length (takeWhile (\<lambda>(a, b). a = b) (zip p note_dir))"
    by (rule proximity_common_prefix)
next
  assume h: "unquote e ''img.png'' = ''img.png'' \<and>
    resolve e [''/'', ''vault'', ''a'', ''img.png''] = Inr q1 \<and> is_file e q1 = Inr False \<and>
    resolve e [''/'', ''vault'', ''img.png''] = Inr q2 \<and> is_file e q2 = Inr False"
  have cl: "clean_link e ''img.png'' = ''img.png''"
    using h by (simp add: clean_link_def strip_def split_first_def isspace_def code_def)
  have pp: "parse_path ''img.png'' = [''img.png'']"
    by (simp add: parse_path_def)
  have lw: "lower (path_name [''img.png'']) = ''img.png''"
    by code_simp
  show "resolve_attachment e ''img.png'' [''/'', ''vault'', ''a''] [''/'', ''vault'']
          [''img.png'' \<mapsto> [[''/'', ''vault'', ''a'', ''img.png''], [''/'', ''vault'', ''b'', ''img.png'']]]
        = Inr (Some [''/'', ''vault'', ''a'', ''img.png''])"
    using h by (simp add: resolve_attachment_def cl joinpath_def pp lw)
qed

theorem resolve_attachment_proximity_witness:
  "clean_link img_env ''img.png'' \<noteq> [] \<and>
   resolve img_env (joinpath [''/'', ''vault'', ''a'', ''sub''] (clean_link img_env ''img.png''))
     = Inr [''/'', ''vault'', ''a'', ''sub'', ''img.png''] \<and>
   is_file img_env [''/'', ''vault'', ''a'', ''sub'', ''img.png''] = Inr False \<and>
   resolve img_env (joinpath [''/'', ''vault''] (clean_link img_env ''img.png''))
     = Inr [''/'', ''vault'', ''img.png''] \<and>
   is_file img_env [''/'', ''vault'', ''img.png''] = Inr False \<and>
   img_index (lower (path_name (parse_path (clean_link img_env ''img.png'')))) = Some [img_a, img_b] \<and>
   1 < length [img_a, img_b] \<and>
   (\<exists>i<length [img_a, img_b].
       resolve_attachment img_env ''img.png'' [''/'', ''vault'', ''a'', ''sub''] [''/'', ''vault''] img_index
         = Inr (Some ([img_a, img_b] ! i)) \<and>
       (\<forall>j<length [img_a, img_b]. proximity ([img_a, img_b] ! j) [''/'', ''vault'', ''a'', ''sub'']
            \<le> proximity ([img_a, img_b] ! i) [''/'', ''vault'', ''a'', ''sub'']) \<and>
       (\<forall>j<i. proximity ([img_a, img_b] ! j) [''/'', ''vault'', ''a'', ''sub'']
            < proximity ([img_a, img_b] ! i) [''/'', ''vault'', ''a'', ''sub''])) \<and>
   unquote empty_env ''img.png'' = ''img.png'' \<and>
   resolve empty_env [''/'', ''vault'', ''a'', ''img.png''] = Inr [''/'', ''vault'', ''a'', ''img.png''] \<and>
   is_file empty_env [''/'', ''vault'', ''a'', ''img.png''] = Inr False \<and>
   resolve empty_env [''/'', ''vault'', ''img.png''] = Inr [''/'', ''vault'', ''img.png''] \<and>
   is_file empty_env [''/'', ''vault'', ''img.png''] = Inr False \<and>
   resolve_attachment empty_env ''img.png'' [''/'', ''vault'', ''a''] [''/'', ''vault'']
       [''img.png'' \<mapsto> [[''/'', ''vault'', ''a'', ''img.png''], [''/'', ''vault'', ''b'', ''img.png'']]]
     = Inr (Some [''/'', ''vault'', ''a'', ''img.png''])"
proof -
  have h1: "clean_link img_env ''img.png'' \<noteq> [] \<and>
   resolve img_env (joinpath [''/'', ''vault'', ''a'', ''sub''] (clean_link img_env ''img.png''))
     = Inr [''/'', ''vault'', ''a'', ''sub'', ''img.png''] \<and>
   is_file img_env [''/'', ''vault'', ''a'', ''sub'', ''img.png''] = Inr False \<and>
   resolve img_env (joinpath [''/'', ''vault''] (clean_link img_env ''img.png''))
     = Inr [''/'', ''vault'', ''img.png''] \<and>
   is_file img_env [''/'', ''vault'', ''img.png''] = Inr False \<and>
   img_index (lower (path_name (parse_path (clean_link img_env ''img.png'')))) = Some [img_a, img_b] \<and>
   1 < length [img_a, img_b]"
    by code_simp
  have h2: "unquote empty_env ''img.png'' = ''img.png'' \<and>
   resolve empty_env [''/'', ''vault'', ''a'', ''img.png''] = Inr [''/'', ''vault'', ''a'', ''img.png''] \<and>
   is_file empty_env [''/'', ''vault'', ''a'', ''img.png''] = Inr False \<and>
   resolve empty_env [''/'', ''vault'', ''img.png''] = Inr [''/'', ''vault'', ''img.png''] \<and>
   is_file empty_env [''/'', ''vault'', ''img.png''] = Inr False"
    by code_simp
  note c1 = resolve_attachment_proximity
    [of img_env "''img.png''" "[''/'', ''vault'', ''a'', ''sub'']"
        "[''/'', ''vault'', ''a'', ''sub'', ''img.png'']" "[''/'', ''vault'']"
        "[''/'', ''vault'', ''img.png'']" img_index "[img_a, img_b]",
     THEN conjunct1, rule_format, OF h1]
  note c2 = resolve_attachment_proximity
    [of empty_env _ _ _ _ _ _ _ _ "[''/'', ''vault'', ''a'', ''img.png'']"
        "[''/'', ''vault'', ''img.png'']",
     THEN conjunct2, THEN conjunct2, rule_format, OF h2]
  show ?thesis
    using h1 h2 c1 c2 by (intro conjI) (elim conjE, assumption)+
qed

text \<open>
  C2, as the code has it. The strategies run in a fixed order and the first success is the
  result: the link joined to the note's directory, when the resolved path is a file;
  otherwise the link joined to the vault root, when that resolved path is a file; otherwise
  the candidates the index holds for the lowercased file name, and nothing when the index
  has no entry. This holds as long as no call of \<^verbatim>\<open>resolve\<close> or \<^verbatim>\<open>is_file\<close> raises; an
  exception raised by one of them leaves the function and no later strategy runs. A link
  that is empty after the cleaning gives nothing before any strategy runs, and an index
  entry without candidates raises \<^verbatim>\<open>IndexError\<close>.
\<close>

theorem resolve_attachment_strategy_order:
  "(clean_link e link = [] \<longrightarrow>
      resolve_attachment e link note_dir vault_root vault_index = Inr None) \<and>
   (clean_link e link \<noteq> [] \<and>
    resolve e (joinpath note_dir (clean_link e link)) = Inl err \<longrightarrow>
      resolve_attachment e link note_dir vault_root vault_index = Inl err) \<and>
   (clean_link e link \<noteq> [] \<and>
    resolve e (joinpath note_dir (clean_link e link)) = Inr p1 \<and> is_file e p1 = Inl err \<longrightarrow>
      resolve_attachment e link note_dir vault_root vault_index = Inl err) \<and>
   (clean_link e link \<noteq> [] \<and>
    resolve e (joinpath note_dir (clean_link e link)) = Inr p1 \<and> is_file e p1 = Inr True \<longrightarrow>
      resolve_attachment e link note_dir vault_root vault_index = Inr (Some p1)) \<and>
   (clean_link e link \<noteq> [] \<and>
    resolve e (joinpath note_dir (clean_link e link)) = Inr p1 \<and> is_file e p1 = Inr False \<and>
    resolve e (joinpath vault_root (clean_link e link)) = Inl err \<longrightarrow>
      resolve_attachment e link note_dir vault_root vault_index = Inl err) \<and>
   (clean_link e link \<noteq> [] \<and>
    resolve e (joinpath note_dir (clean_link e link)) = Inr p1 \<and> is_file e p1 = Inr False \<and>
    resolve e (joinpath vault_root (clean_link e link)) = Inr p2 \<and> is_file e p2 = Inl err \<longrightarrow>
      resolve_attachment e link note_dir vault_root vault_index = Inl err) \<and>
   (clean_link e link \<noteq> [] \<and>
    resolve e (joinpath note_dir (clean_link e link)) = Inr p1 \<and> is_file e p1 = Inr False \<and>
    resolve e (joinpath vault_root (clean_link e link)) = Inr p2 \<and> is_file e p2 = Inr True \<longrightarrow>
      resolve_attachment e link note_dir vault_root vault_index = Inr (Some p2)) \<and>
   (clean_link e link \<noteq> [] \<and>
    resolve e (joinpath note_dir (clean_link e link)) = Inr p1 \<and> is_file e p1 = Inr False \<and>
    resolve e (joinpath vault_root (clean_link e link)) = Inr p2 \<and> is_file e p2 = Inr False \<and>
    vault_index (lower (path_name (parse_path (clean_link e link)))) = None \<longrightarrow>
      resolve_attachment e link note_dir vault_root vault_index = Inr None) \<and>
   (clean_link e link \<noteq> [] \<and>
    resolve e (joinpath note_dir (clean_link e link)) = Inr p1 \<and> is_file e p1 = Inr False \<and>
    resolve e (joinpath vault_root (clean_link e link)) = Inr p2 \<and> is_file e p2 = Inr False \<and>
    vault_index (lower (path_name (parse_path (clean_link e link)))) = Some cands \<and>
    cands \<noteq> [] \<longrightarrow>
      (\<exists>c\<in>set cands. resolve_attachment e link note_dir vault_root vault_index = Inr (Some c))) \<and>
   (clean_link e link \<noteq> [] \<and>
    resolve e (joinpath note_dir (clean_link e link)) = Inr p1 \<and> is_file e p1 = Inr False \<and>
    resolve e (joinpath vault_root (clean_link e link)) = Inr p2 \<and> is_file e p2 = Inr False \<and>
    vault_index (lower (path_name (parse_path (clean_link e link)))) = Some [] \<longrightarrow>
      resolve_attachment e link note_dir vault_root vault_index = Inl IndexError)"
proof (intro conjI impI)
  assume "clean_link e link = []"
  then show "resolve_attachment e link note_dir vault_root vault_index = Inr None"
    by (simp add: resolve_attachment_def)
next
  assume "clean_link e link \<noteq> [] \<and>
    resolve e (joinpath note_dir (clean_link e link)) = Inl err"
  then show "resolve_attachment e link note_dir vault_root vault_index = Inl err"
    by (simp add: resolve_attachment_def Let_def)
next
  assume "clean_link e link \<noteq> [] \<and>
    resolve e (joinpath note_dir (clean_link e link)) = Inr p1 \<and> is_file e p1 = Inl err"
  then show "resolve_attachment e link note_dir vault_root vault_index = Inl err"
    by (simp add: resolve_attachment_def Let_def)
next
  assume "clean_link e link \<noteq> [] \<and>
    resolve e (joinpath note_dir (clean_link e link)) = Inr p1 \<and> is_file e p1 = Inr True"
  then show "resolve_attachment e link note_dir vault_root vault_index = Inr (Some p1)"
    by (simp add: resolve_attachment_def Let_def)
next
  assume "clean_link e link \<noteq> [] \<and>
    resolve e (joinpath note_dir (clean_link e link)) = Inr p1 \<and> is_file e p1 = Inr False \<and>
    resolve e (joinpath vault_root (clean_link e link)) = Inl err"
  then show "resolve_attachment e link note_dir vault_root vault_index = Inl err"
    by (simp add: resolve_attachment_def Let_def)
next
  assume "clean_link e link \<noteq> [] \<and>
    resolve e (joinpath note_dir (clean_link e link)) = Inr p1 \<and> is_file e p1 = Inr False \<and>
    resolve e (joinpath vault_root (clean_link e link)) = Inr p2 \<and> is_file e p2 = Inl err"
  then show "resolve_attachment e link note_dir vault_root vault_index = Inl err"
    by (simp add: resolve_attachment_def Let_def)
next
  assume "clean_link e link \<noteq> [] \<and>
    resolve e (joinpath note_dir (clean_link e link)) = Inr p1 \<and> is_file e p1 = Inr False \<and>
    resolve e (joinpath vault_root (clean_link e link)) = Inr p2 \<and> is_file e p2 = Inr True"
  then show "resolve_attachment e link note_dir vault_root vault_index = Inr (Some p2)"
    by (simp add: resolve_attachment_def Let_def)
next
  assume "clean_link e link \<noteq> [] \<and>
    resolve e (joinpath note_dir (clean_link e link)) = Inr p1 \<and> is_file e p1 = Inr False \<and>
    resolve e (joinpath vault_root (clean_link e link)) = Inr p2 \<and> is_file e p2 = Inr False \<and>
    vault_index (lower (path_name (parse_path (clean_link e link)))) = None"
  then show "resolve_attachment e link note_dir vault_root vault_index = Inr None"
    by (simp add: resolve_attachment_index [of e link note_dir p1 vault_root p2])
next
  assume h: "clean_link e link \<noteq> [] \<and>
    resolve e (joinpath note_dir (clean_link e link)) = Inr p1 \<and> is_file e p1 = Inr False \<and>
    resolve e (joinpath vault_root (clean_link e link)) = Inr p2 \<and> is_file e p2 = Inr False \<and>
    vault_index (lower (path_name (parse_path (clean_link e link)))) = Some cands \<and>
    cands \<noteq> []"
  then have ne: "cands \<noteq> []" by simp
  note idx = resolve_attachment_index [of e link note_dir p1 vault_root p2 vault_index]
  show "\<exists>c\<in>set cands. resolve_attachment e link note_dir vault_root vault_index = Inr (Some c)"
  proof (cases "1 < length cands")
    case True
    from max_from_first_maximum [OF ne, of "\<lambda>p. proximity p note_dir"]
    obtain i where "i < length cands"
      and "max_from (\<lambda>p. proximity p note_dir) (hd cands) (tl cands) = cands ! i"
      by blast
    then have "max_from (\<lambda>p. proximity p note_dir) (hd cands) (tl cands) \<in> set cands"
      by simp
    then show ?thesis using h True by (simp add: idx)
  next
    case False
    then obtain c where "cands = [c]" using ne by (cases cands) auto
    then show ?thesis using h by (simp add: idx)
  qed
next
  assume "clean_link e link \<noteq> [] \<and>
    resolve e (joinpath note_dir (clean_link e link)) = Inr p1 \<and> is_file e p1 = Inr False \<and>
    resolve e (joinpath vault_root (clean_link e link)) = Inr p2 \<and> is_file e p2 = Inr False \<and>
    vault_index (lower (path_name (parse_path (clean_link e link)))) = Some []"
  then show "resolve_attachment e link note_dir vault_root vault_index = Inl IndexError"
    by (simp add: resolve_attachment_index [of e link note_dir p1 vault_root p2])
qed

theorem resolve_attachment_strategy_order_witness:
  "clean_link img_env ''%20#top'' = [] \<and>
   resolve_attachment img_env ''%20#top'' [''/'', ''vault'', ''a''] [''/'', ''vault''] img_index = Inr None \<and>
   clean_link img_env ''a%00.png'' \<noteq> [] \<and>
   resolve img_env (joinpath [''/'', ''vault'', ''a''] (clean_link img_env ''a%00.png'')) = Inl ValueError \<and>
   resolve_attachment img_env ''a%00.png'' [''/'', ''vault'', ''a''] [''/'', ''vault''] img_index = Inl ValueError \<and>
   clean_link img_env long_name \<noteq> [] \<and>
   resolve img_env (joinpath [''/'', ''vault'', ''a''] (clean_link img_env long_name)) = Inr [''/'', ''vault'', ''a'', long_name] \<and>
   is_file img_env [''/'', ''vault'', ''a'', long_name] = Inl OSError \<and>
   resolve_attachment img_env long_name [''/'', ''vault'', ''a''] [''/'', ''vault''] img_index = Inl OSError \<and>
   clean_link img_env ''img.png'' \<noteq> [] \<and>
   resolve img_env (joinpath [''/'', ''vault'', ''b''] (clean_link img_env ''img.png'')) = Inr [''/'', ''vault'', ''b'', ''img.png''] \<and>
   is_file img_env [''/'', ''vault'', ''b'', ''img.png''] = Inr True \<and>
   resolve_attachment img_env ''img.png'' [''/'', ''vault'', ''b''] [''/'', ''vault''] img_index = Inr (Some [''/'', ''vault'', ''b'', ''img.png'']) \<and>
   clean_link img_env ''x.pdf'' \<noteq> [] \<and>
   resolve img_env (joinpath [''/'', ''vault'', ''a''] (clean_link img_env ''x.pdf'')) = Inr [''/'', ''vault'', ''a'', ''x.pdf''] \<and>
   is_file img_env [''/'', ''vault'', ''a'', ''x.pdf''] = Inr False \<and>
   resolve img_env (joinpath nul_root (clean_link img_env ''x.pdf'')) = Inl ValueError \<and>
   resolve_attachment img_env ''x.pdf'' [''/'', ''vault'', ''a''] nul_root img_index = Inl ValueError \<and>
   clean_link img_env ''x.pdf'' \<noteq> [] \<and>
   resolve img_env (joinpath [''/'', ''vault'', ''a''] (clean_link img_env ''x.pdf'')) = Inr [''/'', ''vault'', ''a'', ''x.pdf''] \<and>
   is_file img_env [''/'', ''vault'', ''a'', ''x.pdf''] = Inr False \<and>
   resolve img_env (joinpath long_root (clean_link img_env ''x.pdf'')) = Inr [''/'', long_name, ''x.pdf''] \<and>
   is_file img_env [''/'', long_name, ''x.pdf''] = Inl OSError \<and>
   resolve_attachment img_env ''x.pdf'' [''/'', ''vault'', ''a''] long_root img_index = Inl OSError \<and>
   clean_link img_env ''b/img.png'' \<noteq> [] \<and>
   resolve img_env (joinpath [''/'', ''vault'', ''a''] (clean_link img_env ''b/img.png'')) = Inr [''/'', ''vault'', ''a'', ''b'', ''img.png''] \<and>
   is_file img_env [''/'', ''vault'', ''a'', ''b'', ''img.png''] = Inr False \<and>
   resolve img_env (joinpath [''/'', ''vault''] (clean_link img_env ''b/img.png'')) = Inr [''/'', ''vault'', ''b'', ''img.png''] \<and>
   is_file img_env [''/'', ''vault'', ''b'', ''img.png''] = Inr True \<and>
   resolve_attachment img_env ''b/img.png'' [''/'', ''vault'', ''a''] [''/'', ''vault''] img_index = Inr (Some [''/'', ''vault'', ''b'', ''img.png'']) \<and>
   clean_link img_env ''x.pdf'' \<noteq> [] \<and>
   resolve img_env (joinpath [''/'', ''vault'', ''a''] (clean_link img_env ''x.pdf'')) = Inr [''/'', ''vault'', ''a'', ''x.pdf''] \<and>
   is_file img_env [''/'', ''vault'', ''a'', ''x.pdf''] = Inr False \<and>
   resolve img_env (joinpath [''/'', ''vault''] (clean_link img_env ''x.pdf'')) = Inr [''/'', ''vault'', ''x.pdf''] \<and>
   is_file img_env [''/'', ''vault'', ''x.pdf''] = Inr False \<and>
   img_index (lower (path_name (parse_path (clean_link img_env ''x.pdf'')))) = None \<and>
   resolve_attachment img_env ''x.pdf'' [''/'', ''vault'', ''a''] [''/'', ''vault''] img_index = Inr None \<and>
   clean_link img_env ''c/IMG.png'' \<noteq> [] \<and>
   resolve img_env (joinpath [''/'', ''vault'', ''a''] (clean_link img_env ''c/IMG.png'')) = Inr [''/'', ''vault'', ''a'', ''c'', ''IMG.png''] \<and>
   is_file img_env [''/'', ''vault'', ''a'', ''c'', ''IMG.png''] = Inr False \<and>
   resolve img_env (joinpath [''/'', ''vault''] (clean_link img_env ''c/IMG.png'')) = Inr [''/'', ''vault'', ''c'', ''IMG.png''] \<and>
   is_file img_env [''/'', ''vault'', ''c'', ''IMG.png''] = Inr False \<and>
   img_index (lower (path_name (parse_path (clean_link img_env ''c/IMG.png'')))) = Some [img_a, img_b] \<and>
   [img_a, img_b] \<noteq> [] \<and>
   (\<exists>c\<in>set [img_a, img_b]. resolve_attachment img_env ''c/IMG.png'' [''/'', ''vault'', ''a''] [''/'', ''vault''] img_index = Inr (Some c)) \<and>
   clean_link img_env ''x.pdf'' \<noteq> [] \<and>
   resolve img_env (joinpath [''/'', ''vault'', ''a''] (clean_link img_env ''x.pdf'')) = Inr [''/'', ''vault'', ''a'', ''x.pdf''] \<and>
   is_file img_env [''/'', ''vault'', ''a'', ''x.pdf''] = Inr False \<and>
   resolve img_env (joinpath [''/'', ''vault''] (clean_link img_env ''x.pdf'')) = Inr [''/'', ''vault'', ''x.pdf''] \<and>
   is_file img_env [''/'', ''vault'', ''x.pdf''] = Inr False \<and>
   ([''x.pdf'' \<mapsto> ([]::path list)]) (lower (path_name (parse_path (clean_link img_env ''x.pdf'')))) = Some ([]::path list) \<and>
   resolve_attachment img_env ''x.pdf'' [''/'', ''vault'', ''a''] [''/'', ''vault''] ([''x.pdf'' \<mapsto> ([]::path list)]) = Inl IndexError"
proof -
  have h1: "clean_link img_env ''%20#top'' = []"
    by code_simp
  note c1 = resolve_attachment_strategy_order
    [of img_env "''%20#top''" "[''/'', ''vault'', ''a'']" "[''/'', ''vault'']" "img_index" _ _ _ _,
     THEN conjunct1, rule_format, OF h1]
  have h2: "clean_link img_env ''a%00.png'' \<noteq> [] \<and>
   resolve img_env (joinpath [''/'', ''vault'', ''a''] (clean_link img_env ''a%00.png'')) = Inl ValueError"
    by code_simp
  note c2 = resolve_attachment_strategy_order
    [of img_env "''a%00.png''" "[''/'', ''vault'', ''a'']" "[''/'', ''vault'']" "img_index" "ValueError" _ _ _,
     THEN conjunct2, THEN conjunct1, rule_format, OF h2]
  have h3: "clean_link img_env long_name \<noteq> [] \<and>
   resolve img_env (joinpath [''/'', ''vault'', ''a''] (clean_link img_env long_name)) = Inr [''/'', ''vault'', ''a'', long_name] \<and>
   is_file img_env [''/'', ''vault'', ''a'', long_name] = Inl OSError"
    by code_simp
  note c3 = resolve_attachment_strategy_order
    [of img_env "long_name" "[''/'', ''vault'', ''a'']" "[''/'', ''vault'']" "img_index" "OSError" "[''/'', ''vault'', ''a'', long_name]" _ _,
     THEN conjunct2, THEN conjunct2, THEN conjunct1, rule_format, OF h3]
  have h4: "clean_link img_env ''img.png'' \<noteq> [] \<and>
   resolve img_env (joinpath [''/'', ''vault'', ''b''] (clean_link img_env ''img.png'')) = Inr [''/'', ''vault'', ''b'', ''img.png''] \<and>
   is_file img_env [''/'', ''vault'', ''b'', ''img.png''] = Inr True"
    by code_simp
  note c4 = resolve_attachment_strategy_order
    [of img_env "''img.png''" "[''/'', ''vault'', ''b'']" "[''/'', ''vault'']" "img_index" _ "[''/'', ''vault'', ''b'', ''img.png'']" _ _,
     THEN conjunct2, THEN conjunct2, THEN conjunct2, THEN conjunct1, rule_format, OF h4]
  have h5: "clean_link img_env ''x.pdf'' \<noteq> [] \<and>
   resolve img_env (joinpath [''/'', ''vault'', ''a''] (clean_link img_env ''x.pdf'')) = Inr [''/'', ''vault'', ''a'', ''x.pdf''] \<and>
   is_file img_env [''/'', ''vault'', ''a'', ''x.pdf''] = Inr False \<and>
   resolve img_env (joinpath nul_root (clean_link img_env ''x.pdf'')) = Inl ValueError"
    by code_simp
  note c5 = resolve_attachment_strategy_order
    [of img_env "''x.pdf''" "[''/'', ''vault'', ''a'']" "nul_root" "img_index" "ValueError" "[''/'', ''vault'', ''a'', ''x.pdf'']" _ _,
     THEN conjunct2, THEN conjunct2, THEN conjunct2, THEN conjunct2, THEN conjunct1, rule_format, OF h5]
  have h6: "clean_link img_env ''x.pdf'' \<noteq> [] \<and>
   resolve img_env (joinpath [''/'', ''vault'', ''a''] (clean_link img_env ''x.pdf'')) = Inr [''/'', ''vault'', ''a'', ''x.pdf''] \<and>
   is_file img_env [''/'', ''vault'', ''a'', ''x.pdf''] = Inr False \<and>
   resolve img_env (joinpath long_root (clean_link img_env ''x.pdf'')) = Inr [''/'', long_name, ''x.pdf''] \<and>
   is_file img_env [''/'', long_name, ''x.pdf''] = Inl OSError"
    by code_simp
  note c6 = resolve_attachment_strategy_order
    [of img_env "''x.pdf''" "[''/'', ''vault'', ''a'']" "long_root" "img_index" "OSError" "[''/'', ''vault'', ''a'', ''x.pdf'']" "[''/'', long_name, ''x.pdf'']" _,
     THEN conjunct2, THEN conjunct2, THEN conjunct2, THEN conjunct2, THEN conjunct2, THEN conjunct1, rule_format, OF h6]
  have h7: "clean_link img_env ''b/img.png'' \<noteq> [] \<and>
   resolve img_env (joinpath [''/'', ''vault'', ''a''] (clean_link img_env ''b/img.png'')) = Inr [''/'', ''vault'', ''a'', ''b'', ''img.png''] \<and>
   is_file img_env [''/'', ''vault'', ''a'', ''b'', ''img.png''] = Inr False \<and>
   resolve img_env (joinpath [''/'', ''vault''] (clean_link img_env ''b/img.png'')) = Inr [''/'', ''vault'', ''b'', ''img.png''] \<and>
   is_file img_env [''/'', ''vault'', ''b'', ''img.png''] = Inr True"
    by code_simp
  note c7 = resolve_attachment_strategy_order
    [of img_env "''b/img.png''" "[''/'', ''vault'', ''a'']" "[''/'', ''vault'']" "img_index" _ "[''/'', ''vault'', ''a'', ''b'', ''img.png'']" "[''/'', ''vault'', ''b'', ''img.png'']" _,
     THEN conjunct2, THEN conjunct2, THEN conjunct2, THEN conjunct2, THEN conjunct2, THEN conjunct2, THEN conjunct1, rule_format, OF h7]
  have h8: "clean_link img_env ''x.pdf'' \<noteq> [] \<and>
   resolve img_env (joinpath [''/'', ''vault'', ''a''] (clean_link img_env ''x.pdf'')) = Inr [''/'', ''vault'', ''a'', ''x.pdf''] \<and>
   is_file img_env [''/'', ''vault'', ''a'', ''x.pdf''] = Inr False \<and>
   resolve img_env (joinpath [''/'', ''vault''] (clean_link img_env ''x.pdf'')) = Inr [''/'', ''vault'', ''x.pdf''] \<and>
   is_file img_env [''/'', ''vault'', ''x.pdf''] = Inr False \<and>
   img_index (lower (path_name (parse_path (clean_link img_env ''x.pdf'')))) = None"
    by code_simp
  note c8 = resolve_attachment_strategy_order
    [of img_env "''x.pdf''" "[''/'', ''vault'', ''a'']" "[''/'', ''vault'']" "img_index" _ "[''/'', ''vault'', ''a'', ''x.pdf'']" "[''/'', ''vault'', ''x.pdf'']" _,
     THEN conjunct2, THEN conjunct2, THEN conjunct2, THEN conjunct2, THEN conjunct2, THEN conjunct2, THEN conjunct2, THEN conjunct1, rule_format, OF h8]
  have h9: "clean_link img_env ''c/IMG.png'' \<noteq> [] \<and>
   resolve img_env (joinpath [''/'', ''vault'', ''a''] (clean_link img_env ''c/IMG.png'')) = Inr [''/'', ''vault'', ''a'', ''c'', ''IMG.png''] \<and>
   is_file img_env [''/'', ''vault'', ''a'', ''c'', ''IMG.png''] = Inr False \<and>
   resolve img_env (joinpath [''/'', ''vault''] (clean_link img_env ''c/IMG.png'')) = Inr [''/'', ''vault'', ''c'', ''IMG.png''] \<and>
   is_file img_env [''/'', ''vault'', ''c'', ''IMG.png''] = Inr False \<and>
   img_index (lower (path_name (parse_path (clean_link img_env ''c/IMG.png'')))) = Some [img_a, img_b] \<and>
   [img_a, img_b] \<noteq> []"
    by code_simp
  note c9 = resolve_attachment_strategy_order
    [of img_env "''c/IMG.png''" "[''/'', ''vault'', ''a'']" "[''/'', ''vault'']" "img_index" _ "[''/'', ''vault'', ''a'', ''c'', ''IMG.png'']" "[''/'', ''vault'', ''c'', ''IMG.png'']" "[img_a, img_b]",
     THEN conjunct2, THEN conjunct2, THEN conjunct2, THEN conjunct2, THEN conjunct2, THEN conjunct2, THEN conjunct2, THEN conjunct2, THEN conjunct1, rule_format, OF h9]
  have h10: "clean_link img_env ''x.pdf'' \<noteq> [] \<and>
   resolve img_env (joinpath [''/'', ''vault'', ''a''] (clean_link img_env ''x.pdf'')) = Inr [''/'', ''vault'', ''a'', ''x.pdf''] \<and>
   is_file img_env [''/'', ''vault'', ''a'', ''x.pdf''] = Inr False \<and>
   resolve img_env (joinpath [''/'', ''vault''] (clean_link img_env ''x.pdf'')) = Inr [''/'', ''vault'', ''x.pdf''] \<and>
   is_file img_env [''/'', ''vault'', ''x.pdf''] = Inr False \<and>
   ([''x.pdf'' \<mapsto> ([]::path list)]) (lower (path_name (parse_path (clean_link img_env ''x.pdf'')))) = Some []"
    by code_simp
  note c10 = resolve_attachment_strategy_order
    [of img_env "''x.pdf''" "[''/'', ''vault'', ''a'']" "[''/'', ''vault'']" "[''x.pdf'' \<mapsto> ([]::path list)]" _ "[''/'', ''vault'', ''a'', ''x.pdf'']" "[''/'', ''vault'', ''x.pdf'']" _,
     THEN conjunct2, THEN conjunct2, THEN conjunct2, THEN conjunct2, THEN conjunct2, THEN conjunct2, THEN conjunct2, THEN conjunct2, THEN conjunct2, rule_format, OF h10]
  show ?thesis
    using h1 c1 h2 c2 h3 c3 h4 c4 h5 c5 h6 c6 h7 c7 h8 c8 h9 c9 h10 c10
    by (intro conjI) (elim conjE, assumption)+
qed

text \<open>
  A link with an escaped NUL character: the joined path is no file and the index has no
  entry for the name, yet the function returns nothing of the kind: \<^verbatim>\<open>resolve\<close> raises
  and the exception leaves it.
\<close>

theorem resolve_attachment_raises_counterexample:
  "clean_link img_env ''a%00.png'' = [CHR ''a'', CHR 0x00, CHR ''.'', CHR ''p'', CHR ''n'', CHR ''g''] \<and>
   img_index (lower (path_name (parse_path (clean_link img_env ''a%00.png'')))) = None \<and>
   resolve_attachment img_env ''a%00.png'' [''/'', ''vault'', ''a''] [''/'', ''vault''] img_index
     = Inl ValueError \<and>
   resolve_attachment img_env ''a%00.png'' [''/'', ''vault'', ''a''] [''/'', ''vault''] img_index
     \<noteq> Inr None"
  by code_simp

lemma rev_dropWhile_take:
  "rev (dropWhile P xs) = take (length (dropWhile P xs)) (rev xs)"
proof (induction xs)
  case Nil
  show ?case by simp
next
  case (Cons x xs)
  have "length (dropWhile P xs) \<le> length (rev xs)"
    by (simp add: length_dropWhile_le)
  with Cons show ?case by simp
qed

lemma strip_is_prefix: "\<exists>k. strip s = take k (dropWhile isspace s)"
  unfolding strip_def using rev_dropWhile_take [of isspace "rev (dropWhile isspace s)"]
  by (intro exI [of _ "length (dropWhile isspace (rev (dropWhile isspace s)))"]) simp

lemma strip_no_leading_space: "strip s \<noteq> [] \<Longrightarrow> \<not> isspace (hd (strip s))"
proof -
  assume ne: "strip s \<noteq> []"
  obtain k where k: "strip s = take k (dropWhile isspace s)"
    using strip_is_prefix by blast
  with ne have d: "dropWhile isspace s \<noteq> []" and kp: "0 < k" by auto
  from kp have "hd (take k (dropWhile isspace s)) = hd (dropWhile isspace s)"
    by (rule hd_take)
  with k have "hd (strip s) = hd (dropWhile isspace s)" by simp
  moreover have "\<not> isspace (hd (dropWhile isspace s))"
    using d by (rule hd_dropWhile)
  ultimately show ?thesis by simp
qed

lemma set_strip: "set (strip s) \<subseteq> set s"
proof -
  obtain k where k: "strip s = take k (dropWhile isspace s)"
    using strip_is_prefix by blast
  have "set (take k (dropWhile isspace s)) \<subseteq> set (dropWhile isspace s)"
    by (rule set_take_subset)
  moreover have "set (dropWhile isspace s) \<subseteq> set s"
    by (auto dest: set_dropWhileD)
  ultimately show ?thesis using k by simp
qed

lemma split_first_absent: "c \<notin> set s \<Longrightarrow> split_first c s = s"
  by (auto simp: split_first_def takeWhile_eq_all_conv)

lemma split_first_free: "c \<notin> set (split_first c s)"
  unfolding split_first_def by (induction s) auto

lemma set_split_first: "set (split_first c s) \<subseteq> set s"
  unfolding split_first_def by (auto dest: set_takeWhileD)

lemma hd_split_first: "split_first c s \<noteq> [] \<Longrightarrow> hd (split_first c s) = hd s"
  unfolding split_first_def by (cases s) (auto split: if_splits)

text \<open>
  C3, as the code has it. A link is cleaned by percent-decoding it, then stripping the
  whitespace around it, then cutting it at the first \<^verbatim>\<open>#\<close> and at the first \<^verbatim>\<open>?\<close>. The
  cleaned link holds neither character and does not start with whitespace; it is the
  specification's cleaning whenever the decoded link has no fragment and no query. A link
  that is empty after the cleaning resolves to nothing.
\<close>

theorem clean_link_order:
  "clean_link e link = split_first CHR ''?'' (split_first CHR ''#'' (strip (unquote e link))) \<and>
   CHR ''#'' \<notin> set (clean_link e link) \<and>
   CHR ''?'' \<notin> set (clean_link e link) \<and>
   (clean_link e link \<noteq> [] \<longrightarrow> \<not> isspace (hd (clean_link e link))) \<and>
   (CHR ''#'' \<notin> set (unquote e link) \<and> CHR ''?'' \<notin> set (unquote e link) \<longrightarrow>
      clean_link e link = clean_link_spec e link) \<and>
   (clean_link e link = [] \<longrightarrow>
      resolve_attachment e link note_dir vault_root vault_index = Inr None)"
proof (intro conjI impI)
  show "clean_link e link = split_first CHR ''?'' (split_first CHR ''#'' (strip (unquote e link)))"
    by (simp add: clean_link_def)
next
  have "set (clean_link e link) \<subseteq> set (split_first CHR ''#'' (strip (unquote e link)))"
    unfolding clean_link_def Let_def by (rule set_split_first)
  then show "CHR ''#'' \<notin> set (clean_link e link)"
    using split_first_free [of "CHR ''#''"] by blast
next
  show "CHR ''?'' \<notin> set (clean_link e link)"
    unfolding clean_link_def Let_def by (rule split_first_free)
next
  assume ne: "clean_link e link \<noteq> []"
  let ?s = "strip (unquote e link)"
  let ?t = "split_first CHR ''#'' ?s"
  have c: "clean_link e link = split_first CHR ''?'' ?t" by (simp add: clean_link_def)
  with ne have h1: "hd (clean_link e link) = hd ?t" by (simp add: hd_split_first)
  from ne c have "?t \<noteq> []" by (auto simp: split_first_def)
  then have h2: "hd ?t = hd ?s" and "?s \<noteq> []"
    by (simp_all add: hd_split_first, auto simp: split_first_def)
  then show "\<not> isspace (hd (clean_link e link))"
    using h1 strip_no_leading_space [of "unquote e link"] by simp
next
  assume h: "CHR ''#'' \<notin> set (unquote e link) \<and> CHR ''?'' \<notin> set (unquote e link)"
  then have "CHR ''#'' \<notin> set (strip (unquote e link))" "CHR ''?'' \<notin> set (strip (unquote e link))"
    using set_strip [of "unquote e link"] by auto
  then have "clean_link e link = strip (unquote e link)"
    by (simp add: clean_link_def split_first_absent)
  moreover have "clean_link_spec e link = strip (unquote e link)"
    using h by (simp add: clean_link_spec_def split_first_absent)
  ultimately show "clean_link e link = clean_link_spec e link" by simp
next
  assume "clean_link e link = []"
  then show "resolve_attachment e link note_dir vault_root vault_index = Inr None"
    by (simp add: resolve_attachment_def)
qed

theorem clean_link_order_witness:
  "clean_link empty_env ''%20a%2Fb.png %23x'' \<noteq> [] \<and>
   \<not> isspace (hd (clean_link empty_env ''%20a%2Fb.png %23x'')) \<and>
   clean_link empty_env ''%20a%2Fb.png %23x'' = ''a/b.png '' \<and>
   CHR ''#'' \<notin> set (unquote empty_env '' a%20b.png '') \<and>
   CHR ''?'' \<notin> set (unquote empty_env '' a%20b.png '') \<and>
   clean_link empty_env '' a%20b.png '' = clean_link_spec empty_env '' a%20b.png '' \<and>
   clean_link empty_env '' #top'' = [] \<and>
   resolve_attachment empty_env '' #top'' [''/'', ''vault'', ''a''] [''/'', ''vault''] img_index
     = Inr None"
proof -
  have h1: "clean_link empty_env ''%20a%2Fb.png %23x'' \<noteq> []"
    by code_simp
  have v1: "clean_link empty_env ''%20a%2Fb.png %23x'' = ''a/b.png ''"
    by code_simp
  have h2: "CHR ''#'' \<notin> set (unquote empty_env '' a%20b.png '') \<and>
   CHR ''?'' \<notin> set (unquote empty_env '' a%20b.png '')"
    by code_simp
  have h3: "clean_link empty_env '' #top'' = []"
    by code_simp
  note c1 = clean_link_order [of empty_env "''%20a%2Fb.png %23x''" "[]" "[]" Map.empty,
    THEN conjunct2, THEN conjunct2, THEN conjunct2, THEN conjunct1, rule_format, OF h1]
  note c2 = clean_link_order [of empty_env "'' a%20b.png ''" "[]" "[]" Map.empty,
    THEN conjunct2, THEN conjunct2, THEN conjunct2, THEN conjunct2, THEN conjunct1,
    rule_format, OF h2]
  note c3 = clean_link_order
    [of empty_env "'' #top''" "[''/'', ''vault'', ''a'']" "[''/'', ''vault'']" img_index,
     THEN conjunct2, THEN conjunct2, THEN conjunct2, THEN conjunct2, THEN conjunct2,
     rule_format, OF h3]
  show ?thesis
    using h1 v1 h2 h3 c1 c2 c3 by (intro conjI) (elim conjE, assumption)+
qed

text \<open>
  The order of the specification (fragment and query cut before the whitespace is
  stripped) is not the order of the code: whitespace in front of a fragment is removed by
  the former and kept by the latter.
\<close>

theorem clean_link_spec_order_counterexample:
  "clean_link empty_env ''a.png #frag'' = ''a.png '' \<and>
   clean_link_spec empty_env ''a.png #frag'' = ''a.png'' \<and>
   clean_link empty_env ''a.png #frag'' \<noteq> clean_link_spec empty_env ''a.png #frag''"
  by code_simp

lemma star_total:
  assumes "\<And>st. k st \<noteq> None"
  shows "star p k b g s = k ((if takeWhile p s = [] then b else False), dropWhile p s, g)"
proof (induction s arbitrary: b)
  case Nil
  show ?case by simp
next
  case (Cons c cs)
  show ?case
  proof (cases "p c")
    case True
    have "star p k False g cs \<noteq> None" using Cons [of False] assms by simp
    then show ?thesis using True Cons [of False] by (auto split: option.splits)
  next
    case False
    then show ?thesis by simp
  qed
qed


lemma take_dropWhile_length:
  "take (length s - length (dropWhile p s)) s = takeWhile p s"
proof -
  have "length s = length (takeWhile p s) + length (dropWhile p s)"
    by (metis length_append takeWhile_dropWhile_id)
  then have "length s - length (dropWhile p s) = length (takeWhile p s)" by simp
  moreover have "take (length (takeWhile p s)) s = takeWhile p s"
    by (metis append_eq_conv_conj takeWhile_dropWhile_id)
  ultimately show ?thesis by simp
qed

lemma not_space_hash: "\<not> isspace CHR ''#''"
  by code_simp

lemma tag_char_not_space: "tag_char c \<Longrightarrow> \<not> isspace c"
  unfolding tag_char_def word_char_def isalnum_def isspace_def Let_def
  by (auto simp: code_def)

lemma cap_plus_total:
  "rmatch (Cap (Plus p)) Some (b, s, g) =
     (case s of [] \<Rightarrow> None
      | w # r \<Rightarrow> if p w then Some (False, dropWhile p r, Some (w # takeWhile p r)) else None)"
proof (cases s)
  case Nil
  then show ?thesis by simp
next
  case (Cons w r)
  have le: "length (dropWhile p r) \<le> length r" by (rule length_dropWhile_le)
  have tk: "take (Suc (length r) - length (dropWhile p r)) (w # r) = w # takeWhile p r"
    using le take_dropWhile_length [of r p] by (simp add: Suc_diff_le)
  have st: "star p (\<lambda>(b', s', g'). Some (b', s', Some (take (length (w # r) - length s') (w # r))))
              False g r
            = Some (False, dropWhile p r, Some (take (length (w # r) - length (dropWhile p r)) (w # r)))"
    by (subst star_total) (auto split: prod.splits)
  show ?thesis using Cons st tk by simp
qed

lemma tag_match_start:
  "tag_char w \<Longrightarrow>
   rmatch TAG_RE Some (True, CHR ''#'' # w # r, None) =
     Some (False, dropWhile tag_char r, Some (w # takeWhile tag_char r))"
  by (simp add: TAG_RE_def cap_plus_total del: rmatch.simps(7,10))

lemma tag_match_space:
  "isspace c \<Longrightarrow> tag_char w \<Longrightarrow>
   rmatch TAG_RE Some (b, c # CHR ''#'' # w # r, None) =
     Some (False, dropWhile tag_char r, Some (w # takeWhile tag_char r))"
  using not_space_hash
  by (cases "c = CHR ''#''") (simp_all add: TAG_RE_def cap_plus_total del: rmatch.simps(7,10))

lemma tag_match_none:
  assumes "\<not> (b \<and> (\<exists>w r. s = CHR ''#'' # w # r \<and> tag_char w))"
    and "\<not> (\<exists>c w r. s = c # CHR ''#'' # w # r \<and> isspace c \<and> tag_char w)"
  shows "rmatch TAG_RE Some (b, s, None) = None"
proof (cases s)
  case Nil
  then show ?thesis by (simp add: TAG_RE_def del: rmatch.simps(7,10))
next
  case s1: (Cons c t)
  show ?thesis
  proof (cases t)
    case Nil
    then show ?thesis using s1
      by (simp add: TAG_RE_def cap_plus_total del: rmatch.simps(7,10))
  next
    case t1: (Cons d u)
    show ?thesis
    proof (cases u)
      case Nil
      then show ?thesis using s1 t1 assms
        by (simp add: TAG_RE_def cap_plus_total del: rmatch.simps(7,10))
    next
      case (Cons w r)
      then show ?thesis using s1 t1 assms
        by (simp add: TAG_RE_def cap_plus_total del: rmatch.simps(7,10))
    qed
  qed
qed

lemma tag_scan_hit:
  "pre \<Longrightarrow> wc w \<Longrightarrow>
   tag_scan wc pre (CHR ''#'' # w # r) = (w # takeWhile wc r) # tag_scan wc False (dropWhile wc r)"
  by (subst tag_scan.simps(2)) simp

lemma tag_scan_miss:
  "\<not> (pre \<and> c = CHR ''#'' \<and> (\<exists>w r. cs = w # r \<and> wc w)) \<Longrightarrow>
   tag_scan wc pre (c # cs) = tag_scan wc (isspace c) cs"
  by (subst tag_scan.simps(2)) (auto split: list.splits)

lemma tag_scan_pre_irrelevant:
  assumes "\<not> (\<exists>w r. s = CHR ''#'' # w # r \<and> wc w)"
  shows "tag_scan wc True s = tag_scan wc False s"
proof (cases s)
  case Nil
  then show ?thesis by (simp add: tag_scan.simps(1))
next
  case (Cons c cs)
  have "tag_scan wc True (c # cs) = tag_scan wc (isspace c) cs"
    by (rule tag_scan_miss) (use assms Cons in auto)
  moreover have "tag_scan wc False (c # cs) = tag_scan wc (isspace c) cs"
    by (rule tag_scan_miss) simp
  ultimately show ?thesis using Cons by simp
qed

lemma findall_hit:
  assumes "rmatch r Some (b, s, None) = Some (b', s', Some t)" and "length s' < length s"
  shows "findall r b s = t # findall r False s'"
  by (subst findall.simps) (simp add: assms)

lemma findall_miss:
  assumes "rmatch r Some (b, c # cs, None) = None"
  shows "findall r b (c # cs) = findall r False cs"
  by (subst findall.simps) (simp add: assms)

lemma findall_Nil:
  assumes "rmatch r Some (b, [], None) = None"
  shows "findall r b [] = []"
  by (subst findall.simps) (simp add: assms)

lemma findall_tag_scan: "findall TAG_RE b s = tag_scan tag_char b s"
proof (induction s arbitrary: b rule: length_induct)
  case (1 s)
  note IH = 1 [rule_format]
  show ?case
  proof (cases s)
    case Nil
    have "rmatch TAG_RE Some (b, [], None) = None"
      by (rule tag_match_none) auto
    then show ?thesis using Nil by (simp add: findall_Nil tag_scan.simps(1))
  next
    case (Cons c t)
    consider (start) w r where "b" "c = CHR ''#''" "t = w # r" "tag_char w"
      | (space) w r where "isspace c" "t = CHR ''#'' # w # r" "tag_char w"
      | (none) "\<not> (b \<and> c = CHR ''#'' \<and> (\<exists>w r. t = w # r \<and> tag_char w))"
               "\<not> (isspace c \<and> (\<exists>w r. t = CHR ''#'' # w # r \<and> tag_char w))"
      by blast
    then show ?thesis
    proof cases
      case start
      have m: "rmatch TAG_RE Some (b, s, None) =
          Some (False, dropWhile tag_char r, Some (w # takeWhile tag_char r))"
        using start Cons tag_match_start [of w r] by simp
      have len: "length (dropWhile tag_char r) < length s"
        using Cons start length_dropWhile_le [of tag_char r] by simp
      have "findall TAG_RE b s =
          (w # takeWhile tag_char r) # findall TAG_RE False (dropWhile tag_char r)"
        using m len by (rule findall_hit)
      also have "findall TAG_RE False (dropWhile tag_char r) = tag_scan tag_char False (dropWhile tag_char r)"
        using IH [OF len] .
      finally show ?thesis using start Cons by (simp add: tag_scan_hit)
    next
      case space
      have nh: "c \<noteq> CHR ''#''" using space(1) not_space_hash by auto
      have m: "rmatch TAG_RE Some (b, s, None) =
          Some (False, dropWhile tag_char r, Some (w # takeWhile tag_char r))"
        using space Cons tag_match_space [of c w b r] by simp
      have len: "length (dropWhile tag_char r) < length s"
        using Cons space length_dropWhile_le [of tag_char r] by simp
      have "findall TAG_RE b s =
          (w # takeWhile tag_char r) # findall TAG_RE False (dropWhile tag_char r)"
        using m len by (rule findall_hit)
      also have "findall TAG_RE False (dropWhile tag_char r) = tag_scan tag_char False (dropWhile tag_char r)"
        using IH [OF len] .
      finally have fa: "findall TAG_RE b s =
          (w # takeWhile tag_char r) # tag_scan tag_char False (dropWhile tag_char r)" .
      have "tag_scan tag_char b s = tag_scan tag_char (isspace c) t"
        unfolding Cons by (rule tag_scan_miss) (use nh in simp)
      also have "\<dots> = (w # takeWhile tag_char r) # tag_scan tag_char False (dropWhile tag_char r)"
        using space by (simp add: tag_scan_hit)
      finally show ?thesis using fa by simp
    next
      case none
      have m: "rmatch TAG_RE Some (b, c # t, None) = None"
        by (rule tag_match_none) (use none in auto)
      have f: "findall TAG_RE b s = findall TAG_RE False t"
        using m Cons by (simp add: findall_miss)
      have ih: "findall TAG_RE False t = tag_scan tag_char False t"
        using IH [of t] Cons by simp
      have "tag_scan tag_char b s = tag_scan tag_char (isspace c) t"
        unfolding Cons by (rule tag_scan_miss) (use none in blast)
      also have "\<dots> = tag_scan tag_char False t"
      proof (cases "isspace c")
        case True
        then have "\<not> (\<exists>w r. t = CHR ''#'' # w # r \<and> tag_char w)" using none(2) by blast
        then show ?thesis using True tag_scan_pre_irrelevant by simp
      next
        case False
        then show ?thesis by simp
      qed
      finally show ?thesis using f ih by simp
    qed
  qed
qed

text \<open>
  C7, as the code has it. The inline tags are taken from the whole text of the note, the
  front-matter block included. They are the runs of word characters that follow a
  \<^verbatim>\<open>#\<close> standing at the start of the text or directly after a whitespace character,
  where a word character is a letter, a digit, the underscore or the hyphen; each run is
  taken as long as possible and recorded without the \<^verbatim>\<open>#\<close>, and each is a candidate
  tag of the note.
\<close>

theorem inline_tags_rule:
  "inline_tags text = tag_scan tag_char True text \<and>
   tag_char c = (isalnum c \<or> c = CHR ''_'' \<or> c = CHR ''-'') \<and>
   note_tags e text = set (tag_scan tag_char True text) \<union> set (frontmatter_tags e text)"
  unfolding inline_tags_def note_tags_def
  by (simp add: findall_tag_scan tag_char_def word_char_def inline_tags_def)

text \<open>
  With the word characters of the specification (letters, digits, hyphen) the rule gives
  the tag \<^verbatim>\<open>a\<close> for the text \<^verbatim>\<open>#a_b\<close>; the code gives \<^verbatim>\<open>a_b\<close>. And a \<^verbatim>\<open>#draft\<close> in
  the front-matter block is an inline tag of the code, although the body of that note
  holds no tag.
\<close>

theorem inline_tags_counterexample:
  "inline_tags ''#a_b'' = [''a_b''] \<and>
   tag_scan spec_tag_char True ''#a_b'' = [''a''] \<and>
   inline_tags ''#a_b'' \<noteq> tag_scan spec_tag_char True ''#a_b'' \<and>
   inline_tags draft_text = [''draft''] \<and>
   body_of draft_text = ''body without tags'' \<and>
   tag_scan spec_tag_char True (body_of draft_text) = [] \<and>
   inline_tags (body_of draft_text) = []"
  by code_simp


























text \<open>
  C6, as the code has it. The matched tags of a note are the target tags that occur among
  its candidate tags, compared as they are written. The candidate tags are the inline tags
  of the whole note text, the front-matter block included, together with the front-matter
  tags. A note with no such tag gives no record, and a note with one gives a record as
  soon as its attachments and its size can be read. The body \<^verbatim>\<open>#ready and #draft\<close>
  matches the target \<^verbatim>\<open>ready\<close> with the matched tag \<^verbatim>\<open>ready\<close> and does not match the
  target \<^verbatim>\<open>done\<close>.
\<close>

theorem process_note_matched_tags:
  "(read_text e note_path = Some text \<and>
    process_note e note_path target_tags vault_root vault_index = Some r \<longrightarrow>
      set (matched_tags r) =
        set target_tags \<inter> (set (inline_tags text) \<union> set (frontmatter_tags e text)) \<and>
      set (matched_tags r) \<noteq> {}) \<and>
   (read_text e note_path = Some text \<and>
    set target_tags \<inter> (set (inline_tags text) \<union> set (frontmatter_tags e text)) = {} \<longrightarrow>
      process_note e note_path target_tags vault_root vault_index = None) \<and>
   (read_text e note_path = Some text \<and>
    set target_tags \<inter> (set (inline_tags text) \<union> set (frontmatter_tags e text)) \<noteq> {} \<and>
    find_attachments e text (parent note_path) vault_root vault_index = Inr atts \<and>
    st_size e note_path = Some n \<longrightarrow>
      (\<exists>r. process_note e note_path target_tags vault_root vault_index = Some r \<and>
           path r = note_path \<and> attachments r = atts \<and> note_size r = n))"
proof (intro conjI impI)
  assume h: "read_text e note_path = Some text \<and>
    process_note e note_path target_tags vault_root vault_index = Some r"
  let ?m = "filter (\<lambda>t. t \<in> note_tags e text) target_tags"
  from h have "?m \<noteq> [] \<and> matched_tags r = ?m"
    by (auto simp: process_note_def Let_def split: if_splits sum.splits option.splits)
  then have m: "matched_tags r = ?m" and ne: "matched_tags r \<noteq> []" by auto
  from m show "set (matched_tags r) =
      set target_tags \<inter> (set (inline_tags text) \<union> set (frontmatter_tags e text))"
    by (auto simp: note_tags_def)
  from ne show "set (matched_tags r) \<noteq> {}" by simp
next
  assume h: "read_text e note_path = Some text \<and>
    set target_tags \<inter> (set (inline_tags text) \<union> set (frontmatter_tags e text)) = {}"
  then have "filter (\<lambda>t. t \<in> note_tags e text) target_tags = []"
    by (auto simp: note_tags_def filter_empty_conv)
  then show "process_note e note_path target_tags vault_root vault_index = None"
    using h by (simp add: process_note_def)
next
  assume h: "read_text e note_path = Some text \<and>
    set target_tags \<inter> (set (inline_tags text) \<union> set (frontmatter_tags e text)) \<noteq> {} \<and>
    find_attachments e text (parent note_path) vault_root vault_index = Inr atts \<and>
    st_size e note_path = Some n"
  then have "filter (\<lambda>t. t \<in> note_tags e text) target_tags \<noteq> []"
    by (auto simp: note_tags_def filter_empty_conv)
  then show "\<exists>r. process_note e note_path target_tags vault_root vault_index = Some r \<and>
           path r = note_path \<and> attachments r = atts \<and> note_size r = n"
    using h by (simp add: process_note_def Let_def)
qed

theorem process_note_matched_tags_witness:
  "read_text ready_env ready_note = Some ''#ready and #draft'' \<and>
   process_note ready_env ready_note [''ready''] [''/'', ''vault''] Map.empty
     = Some \<lparr>path = ready_note, matched_tags = [''ready''], attachments = [], note_size = 17\<rparr> \<and>
   set (matched_tags \<lparr>path = ready_note, matched_tags = [''ready''], attachments = [], note_size = 17\<rparr>)
     = set [''ready''] \<inter> (set (inline_tags ''#ready and #draft'')
         \<union> set (frontmatter_tags ready_env ''#ready and #draft'')) \<and>
   set [''done''] \<inter> (set (inline_tags ''#ready and #draft'')
         \<union> set (frontmatter_tags ready_env ''#ready and #draft'')) = {} \<and>
   process_note ready_env ready_note [''done''] [''/'', ''vault''] Map.empty = None \<and>
   set [''ready''] \<inter> (set (inline_tags ''#ready and #draft'')
         \<union> set (frontmatter_tags ready_env ''#ready and #draft'')) \<noteq> {} \<and>
   find_attachments ready_env ''#ready and #draft'' (parent ready_note) [''/'', ''vault''] Map.empty
     = Inr [] \<and>
   st_size ready_env ready_note = Some 17 \<and>
   (\<exists>r. process_note ready_env ready_note [''ready''] [''/'', ''vault''] Map.empty = Some r \<and>
        path r = ready_note \<and> attachments r = [] \<and> note_size r = 17)"
proof -
  let ?r = "\<lparr>path = ready_note, matched_tags = [''ready''], attachments = [], note_size = 17\<rparr>"
  have h1: "read_text ready_env ready_note = Some ''#ready and #draft'' \<and>
   process_note ready_env ready_note [''ready''] [''/'', ''vault''] Map.empty = Some ?r"
    by code_simp
  have h2: "read_text ready_env ready_note = Some ''#ready and #draft'' \<and>
   set [''done''] \<inter> (set (inline_tags ''#ready and #draft'')
         \<union> set (frontmatter_tags ready_env ''#ready and #draft'')) = {}"
    by code_simp
  have h3: "read_text ready_env ready_note = Some ''#ready and #draft'' \<and>
   set [''ready''] \<inter> (set (inline_tags ''#ready and #draft'')
         \<union> set (frontmatter_tags ready_env ''#ready and #draft'')) \<noteq> {} \<and>
   find_attachments ready_env ''#ready and #draft'' (parent ready_note) [''/'', ''vault''] Map.empty
     = Inr [] \<and>
   st_size ready_env ready_note = Some 17"
    by code_simp
  note c1 = process_note_matched_tags
    [of ready_env ready_note "''#ready and #draft''" "[''ready'']" "[''/'', ''vault'']" Map.empty
        ?r "[]" 0, THEN conjunct1, rule_format, OF h1, THEN conjunct1]
  note c2 = process_note_matched_tags
    [of ready_env ready_note "''#ready and #draft''" "[''done'']" "[''/'', ''vault'']" Map.empty
        ?r "[]" 0, THEN conjunct2, THEN conjunct1, rule_format, OF h2]
  note c3 = process_note_matched_tags
    [of ready_env ready_note "''#ready and #draft''" "[''ready'']" "[''/'', ''vault'']" Map.empty
        ?r "[]" 17, THEN conjunct2, THEN conjunct2, rule_format, OF h3]
  show ?thesis
    using h1 h2 h3 c1 c2 c3 by (intro conjI) (elim conjE, assumption)+
qed

text \<open>
  A note whose body holds no tag and whose front matter has no \<^verbatim>\<open>tags\<close> entry is matched
  all the same when the text of its front-matter block holds the token: the candidate tags
  are not the inline tags of the body alone.
\<close>

theorem process_note_front_matter_scan_counterexample:
  "map_option matched_tags
     (process_note draft_env draft_note [''draft''] [''/'', ''vault''] Map.empty) = Some [''draft''] \<and>
   inline_tags (body_of draft_text) = [] \<and>
   frontmatter_tags draft_env draft_text = [] \<and>
   set [''draft''] \<inter> (set (inline_tags (body_of draft_text))
       \<union> set (frontmatter_tags draft_env draft_text)) = {}"
  by code_simp

lemma dropWhile_none: "\<forall>x\<in>set xs. \<not> P x \<Longrightarrow> dropWhile P xs = xs"
  by (cases xs) auto

lemma strip_hash_leading_only:
  assumes "CHR ''#'' \<notin> set (dropWhile (\<lambda>c. c = CHR ''#'') s)"
  shows "strip_chars ''#'' s = dropWhile (\<lambda>c. c = CHR ''#'') s"
proof -
  let ?t = "dropWhile (\<lambda>c. c = CHR ''#'') s"
  have "\<forall>x\<in>set (rev ?t). \<not> x = CHR ''#''" using assms by auto
  then have "dropWhile (\<lambda>c. c = CHR ''#'') (rev ?t) = rev ?t" by (rule dropWhile_none)
  then show ?thesis by (simp add: strip_chars_def)
qed

lemma seq_tags_mem:
  "u \<in> set (concat (map (\<lambda>t. case t of YStr s \<Rightarrow> [strip_chars ''#'' s] | _ \<Rightarrow> []) ts))
     \<longleftrightarrow> (\<exists>v. YStr v \<in> set ts \<and> u = strip_chars ''#'' v)"
proof (induction ts)
  case Nil
  show ?case by simp
next
  case (Cons t ts)
  show ?case
  proof (cases t)
    case (YStr s)
    then show ?thesis using Cons by auto
  next
    case (YSeq x)
    then show ?thesis using Cons by auto
  next
    case (YMap x)
    then show ?thesis using Cons by auto
  next
    case YOther
    then show ?thesis using Cons by auto
  qed
qed

text \<open>
  C8, as the code has it. When the front matter parses to a mapping with a \<^verbatim>\<open>tags\<close>
  entry, a string value gives one candidate tag and a list gives one for each of its
  strings; each value loses every \<^verbatim>\<open>#\<close> at its start and at its end, which for a value
  with no other \<^verbatim>\<open>#\<close> is the removal of the leading ones. The front-matter tags are
  candidate tags, so a note whose front-matter list holds a target tag is matched, whatever
  its body holds.
\<close>

theorem frontmatter_tags_rule:
  "(re_match FRONTMATTER_RE text = Some block \<and> safe_load e block = Some (YMap items) \<and>
    map_of items (YStr ''tags'') = Some (YStr s) \<longrightarrow>
      frontmatter_tags e text = [strip_chars ''#'' s]) \<and>
   (re_match FRONTMATTER_RE text = Some block \<and> safe_load e block = Some (YMap items) \<and>
    map_of items (YStr ''tags'') = Some (YSeq ts) \<longrightarrow>
      (u \<in> set (frontmatter_tags e text)) = (\<exists>v. YStr v \<in> set ts \<and> u = strip_chars ''#'' v)) \<and>
   set (frontmatter_tags e text) \<subseteq> note_tags e text \<and>
   strip_chars ''#'' s =
     rev (dropWhile (\<lambda>c. c = CHR ''#'') (rev (dropWhile (\<lambda>c. c = CHR ''#'') s))) \<and>
   (CHR ''#'' \<notin> set (dropWhile (\<lambda>c. c = CHR ''#'') s) \<longrightarrow>
      strip_chars ''#'' s = dropWhile (\<lambda>c. c = CHR ''#'') s) \<and>
   (read_text e note_path = Some text \<and>
    re_match FRONTMATTER_RE text = Some block \<and> safe_load e block = Some (YMap items) \<and>
    map_of items (YStr ''tags'') = Some (YSeq ts) \<and> YStr v \<in> set ts \<and>
    strip_chars ''#'' v \<in> set target_tags \<and>
    find_attachments e text (parent note_path) vault_root vault_index = Inr atts \<and>
    st_size e note_path = Some n \<longrightarrow>
      (\<exists>r. process_note e note_path target_tags vault_root vault_index = Some r \<and>
           strip_chars ''#'' v \<in> set (matched_tags r)))"
proof (intro conjI impI)
  assume "re_match FRONTMATTER_RE text = Some block \<and> safe_load e block = Some (YMap items) \<and>
    map_of items (YStr ''tags'') = Some (YStr s)"
  then show "frontmatter_tags e text = [strip_chars ''#'' s]"
    by (simp add: frontmatter_tags_def)
next
  assume "re_match FRONTMATTER_RE text = Some block \<and> safe_load e block = Some (YMap items) \<and>
    map_of items (YStr ''tags'') = Some (YSeq ts)"
  then have "frontmatter_tags e text =
      concat (map (\<lambda>t. case t of YStr s \<Rightarrow> [strip_chars ''#'' s] | _ \<Rightarrow> []) ts)"
    by (simp add: frontmatter_tags_def)
  then show "(u \<in> set (frontmatter_tags e text)) = (\<exists>v. YStr v \<in> set ts \<and> u = strip_chars ''#'' v)"
    by (simp only: seq_tags_mem)
next
  show "set (frontmatter_tags e text) \<subseteq> note_tags e text"
    by (simp add: note_tags_def)
next
  show "strip_chars ''#'' s =
     rev (dropWhile (\<lambda>c. c = CHR ''#'') (rev (dropWhile (\<lambda>c. c = CHR ''#'') s)))"
    by (simp add: strip_chars_def)
next
  assume "CHR ''#'' \<notin> set (dropWhile (\<lambda>c. c = CHR ''#'') s)"
  then show "strip_chars ''#'' s = dropWhile (\<lambda>c. c = CHR ''#'') s"
    by (rule strip_hash_leading_only)
next
  assume h: "read_text e note_path = Some text \<and>
    re_match FRONTMATTER_RE text = Some block \<and> safe_load e block = Some (YMap items) \<and>
    map_of items (YStr ''tags'') = Some (YSeq ts) \<and> YStr v \<in> set ts \<and>
    strip_chars ''#'' v \<in> set target_tags \<and>
    find_attachments e text (parent note_path) vault_root vault_index = Inr atts \<and>
    st_size e note_path = Some n"
  then have "frontmatter_tags e text =
      concat (map (\<lambda>t. case t of YStr s \<Rightarrow> [strip_chars ''#'' s] | _ \<Rightarrow> []) ts)"
    by (simp add: frontmatter_tags_def)
  then have "(strip_chars ''#'' v \<in> set (frontmatter_tags e text))
      = (\<exists>w. YStr w \<in> set ts \<and> strip_chars ''#'' v = strip_chars ''#'' w)"
    by (simp only: seq_tags_mem)
  moreover have "\<exists>w. YStr w \<in> set ts \<and> strip_chars ''#'' v = strip_chars ''#'' w"
    using h by blast
  ultimately have "strip_chars ''#'' v \<in> set (frontmatter_tags e text)" by simp
  then have "strip_chars ''#'' v \<in> note_tags e text"
    by (simp add: note_tags_def)
  then have m: "strip_chars ''#'' v \<in> set (filter (\<lambda>t. t \<in> note_tags e text) target_tags)"
    using h by simp
  have ne: "filter (\<lambda>t. t \<in> note_tags e text) target_tags \<noteq> []"
  proof
    assume "filter (\<lambda>t. t \<in> note_tags e text) target_tags = []"
    with m show False by simp
  qed
  show "\<exists>r. process_note e note_path target_tags vault_root vault_index = Some r \<and>
           strip_chars ''#'' v \<in> set (matched_tags r)"
    using h m ne by (simp add: process_note_def Let_def)
qed

theorem frontmatter_tags_rule_witness:
  "re_match FRONTMATTER_RE sharp_text = Some ''tags: c#'' \<and>
   safe_load fm_env ''tags: c#'' = Some (YMap [(YStr ''tags'', YStr ''c#'')]) \<and>
   map_of [(YStr ''tags'', YStr ''c#'')] (YStr ''tags'') = Some (YStr ''c#'') \<and>
   frontmatter_tags fm_env sharp_text = [strip_chars ''#'' ''c#''] \<and>
   CHR ''#'' \<notin> set (dropWhile (\<lambda>c. c = CHR ''#'') ''#ready'') \<and>
   strip_chars ''#'' ''#ready'' = dropWhile (\<lambda>c. c = CHR ''#'') ''#ready'' \<and>
   read_text fm_env fm_note = Some fm_text \<and>
   re_match FRONTMATTER_RE fm_text = Some ''tags: [ready, archive]'' \<and>
   safe_load fm_env ''tags: [ready, archive]''
     = Some (YMap [(YStr ''tags'', YSeq [YStr ''ready'', YStr ''archive''])]) \<and>
   map_of [(YStr ''tags'', YSeq [YStr ''ready'', YStr ''archive''])] (YStr ''tags'')
     = Some (YSeq [YStr ''ready'', YStr ''archive'']) \<and>
   YStr ''archive'' \<in> set [YStr ''ready'', YStr ''archive''] \<and>
   strip_chars ''#'' ''archive'' \<in> set [''archive''] \<and>
   inline_tags fm_text = [] \<and>
   find_attachments fm_env fm_text (parent fm_note) [''/'', ''vault''] Map.empty = Inr [] \<and>
   st_size fm_env fm_note = Some 41 \<and>
   (\<exists>r. process_note fm_env fm_note [''archive''] [''/'', ''vault''] Map.empty = Some r \<and>
        strip_chars ''#'' ''archive'' \<in> set (matched_tags r))"
proof -
  have h1: "re_match FRONTMATTER_RE sharp_text = Some ''tags: c#'' \<and>
   safe_load fm_env ''tags: c#'' = Some (YMap [(YStr ''tags'', YStr ''c#'')]) \<and>
   map_of [(YStr ''tags'', YStr ''c#'')] (YStr ''tags'') = Some (YStr ''c#'')"
    by code_simp
  have h2: "CHR ''#'' \<notin> set (dropWhile (\<lambda>c. c = CHR ''#'') ''#ready'')"
    by simp
  have h3: "read_text fm_env fm_note = Some fm_text \<and>
   re_match FRONTMATTER_RE fm_text = Some ''tags: [ready, archive]'' \<and>
   safe_load fm_env ''tags: [ready, archive]''
     = Some (YMap [(YStr ''tags'', YSeq [YStr ''ready'', YStr ''archive''])]) \<and>
   map_of [(YStr ''tags'', YSeq [YStr ''ready'', YStr ''archive''])] (YStr ''tags'')
     = Some (YSeq [YStr ''ready'', YStr ''archive'']) \<and>
   YStr ''archive'' \<in> set [YStr ''ready'', YStr ''archive''] \<and>
   strip_chars ''#'' ''archive'' \<in> set [''archive''] \<and>
   find_attachments fm_env fm_text (parent fm_note) [''/'', ''vault''] Map.empty = Inr [] \<and>
   st_size fm_env fm_note = Some 41"
    by code_simp
  have h4: "inline_tags fm_text = []"
    by code_simp
  note c1 = frontmatter_tags_rule
    [of sharp_text "''tags: c#''" fm_env "[(YStr ''tags'', YStr ''c#'')]" "''c#''",
     THEN conjunct1, rule_format, OF h1]
  note c2 = frontmatter_tags_rule
    [of _ _ _ _ "''#ready''",
     THEN conjunct2, THEN conjunct2, THEN conjunct2, THEN conjunct2, THEN conjunct1,
     rule_format, OF h2]
  note c3 = frontmatter_tags_rule
    [of fm_text "''tags: [ready, archive]''" fm_env
        "[(YStr ''tags'', YSeq [YStr ''ready'', YStr ''archive''])]" _
        "[YStr ''ready'', YStr ''archive'']" _ fm_note "''archive''" "[''archive'']"
        "[''/'', ''vault'']" Map.empty "[]" 41,
     THEN conjunct2, THEN conjunct2, THEN conjunct2, THEN conjunct2, THEN conjunct2,
     rule_format, OF h3]
  show ?thesis
    using h1 h2 h3 h4 c1 c2 c3 by (intro conjI) (elim conjE, assumption)+
qed

text \<open>
  A front-matter tag that ends in \<^verbatim>\<open>#\<close> loses it: the value \<^verbatim>\<open>c#\<close>, which has no
  leading \<^verbatim>\<open>#\<close> to remove, becomes the candidate \<^verbatim>\<open>c\<close>, and the note does not match
  the target tag \<^verbatim>\<open>c#\<close>.
\<close>

theorem frontmatter_tags_trailing_hash_counterexample:
  "frontmatter_tags fm_env sharp_text = [''c''] \<and>
   strip_leading_hash ''c#'' = ''c#'' \<and>
   frontmatter_tags fm_env sharp_text \<noteq> [strip_leading_hash ''c#''] \<and>
   process_note fm_env sharp_note [''c#''] [''/'', ''vault''] Map.empty = None"
  by code_simp

lemma move_attachments_tally:
  "errors (snd (move_attachments sys dest_dir atts st)) = errors st \<and>
   moved_notes (snd (move_attachments sys dest_dir atts st)) = moved_notes st"
  by (induction atts arbitrary: st)
     (auto simp: Let_def path_exists_def shutil_move_def split: sum.splits)




lemma move_attachments_single:
  assumes "\<not> stat_raises sys a"
    and "\<not> stat_raises sys (joinpath dest_dir (path_name a))"
    and "\<not> move_raises sys a (joinpath dest_dir (path_name a))"
  shows "move_attachments sys dest_dir [a] st =
     (None,
      if a \<in> files st \<and> joinpath dest_dir (path_name a) \<notin> files st
      then st\<lparr>files := insert (joinpath dest_dir (path_name a)) (files st - {a}),
              moved_atts := moved_atts st + 1\<rparr>
      else st)"
  using assms by (simp add: Let_def path_exists_def shutil_move_def)

lemma move_note_present:
  assumes "move_attachments sys dest_dir (attachments note) st = (None, st1)"
    and "path note \<in> files st1"
    and "\<And>p. \<not> stat_raises sys p" and "\<And>src dst. \<not> move_raises sys src dst"
  shows "\<exists>d. move_note sys dest_dir i note st =
           st1\<lparr>files := insert d (files st1 - {path note}), moved_notes := moved_notes st1 + 1\<rparr>"
proof (cases "joinpath dest_dir (path_name (path note)) \<in> files st1")
  case True
  have "move_note sys dest_dir i note st =
      st1\<lparr>files := insert (joinpath dest_dir
                            (stem (path note) @ ''_'' @ str_nat i @ suffix (path note)))
                         (files st1 - {path note}),
          moved_notes := moved_notes st1 + 1\<rparr>"
    using assms True by (simp add: move_note_def Let_def path_exists_def shutil_move_def)
  then show ?thesis by blast
next
  case False
  have "move_note sys dest_dir i note st =
      st1\<lparr>files := insert (joinpath dest_dir (path_name (path note))) (files st1 - {path note}),
          moved_notes := moved_notes st1 + 1\<rparr>"
    using assms False by (simp add: move_note_def Let_def path_exists_def shutil_move_def)
  then show ?thesis by blast
qed

text \<open>
  C10. Before an attachment is moved its presence on disk is checked, and an attachment
  that is no longer there is passed over: the loop over the attachments changes nothing
  for it, and that loop never touches the error tally. When two notes of the queue name
  the same attachment and the operating system refuses nothing, the first note's pass
  moves it, the second note's pass skips it, both notes are moved and the error tally
  stays at zero.
\<close>

theorem missing_attachment_skipped:
  "(path_exists sys (files st) att = Inr False \<longrightarrow>
      move_attachments sys dest_dir (att # atts) st = move_attachments sys dest_dir atts st) \<and>
   errors (snd (move_attachments sys dest_dir atts st)) = errors st \<and>
   ((\<forall>p. \<not> stat_raises sys p) \<and> (\<forall>src dst. \<not> move_raises sys src dst) \<and>
    attachments n1 = [a] \<and> attachments n2 = [a] \<and>
    a \<in> fs \<and> path n1 \<in> fs \<and> path n2 \<in> fs \<and>
    path n1 \<noteq> path n2 \<and> a \<noteq> path n1 \<and> a \<noteq> path n2 \<and>
    joinpath dest_dir (path_name a) \<notin> fs \<longrightarrow>
      errors (move_all sys dest_dir [n1, n2] fs) = 0 \<and>
      moved_atts (move_all sys dest_dir [n1, n2] fs) = 1 \<and>
      moved_notes (move_all sys dest_dir [n1, n2] fs) = 2 \<and>
      joinpath dest_dir (path_name a) \<in> files (move_all sys dest_dir [n1, n2] fs))"
proof (intro conjI impI)
  assume "path_exists sys (files st) att = Inr False"
  then show "move_attachments sys dest_dir (att # atts) st = move_attachments sys dest_dir atts st"
    by simp
next
  show "errors (snd (move_attachments sys dest_dir atts st)) = errors st"
    using move_attachments_tally by blast
next
  assume h: "(\<forall>p. \<not> stat_raises sys p) \<and> (\<forall>src dst. \<not> move_raises sys src dst) \<and>
    attachments n1 = [a] \<and> attachments n2 = [a] \<and>
    a \<in> fs \<and> path n1 \<in> fs \<and> path n2 \<in> fs \<and>
    path n1 \<noteq> path n2 \<and> a \<noteq> path n1 \<and> a \<noteq> path n2 \<and>
    joinpath dest_dir (path_name a) \<notin> fs"
  then have q1: "\<And>p. \<not> stat_raises sys p" and q2: "\<And>src dst. \<not> move_raises sys src dst"
    by auto
  let ?da = "joinpath dest_dir (path_name a)"
  let ?s0 = "\<lparr>files = fs, moved_notes = 0, moved_atts = 0, errors = 0\<rparr>"
  let ?s1 = "\<lparr>files = insert ?da (fs - {a}), moved_notes = 0, moved_atts = 1, errors = 0\<rparr>"
  have n1: "path n1 \<noteq> ?da" and n2: "path n2 \<noteq> ?da" using h by auto
  have single: "\<And>st. move_attachments sys dest_dir [a] st =
     (None,
      if a \<in> files st \<and> ?da \<notin> files st
      then st\<lparr>files := insert ?da (files st - {a}), moved_atts := moved_atts st + 1\<rparr>
      else st)"
    by (rule move_attachments_single) (rule q1 q2)+
  have a1: "move_attachments sys dest_dir (attachments n1) ?s0 = (None, ?s1)"
    using h by (simp add: single del: move_attachments.simps)
  have p1: "path n1 \<in> files ?s1" using h by auto
  from move_note_present [OF a1 p1 q1 q2, of 1]
  obtain d1 where m1: "move_note sys dest_dir 1 n1 ?s0 =
      ?s1\<lparr>files := insert d1 (files ?s1 - {path n1}), moved_notes := moved_notes ?s1 + 1\<rparr>"
    by blast
  let ?f2 = "insert d1 (insert ?da (fs - {a}) - {path n1})"
  let ?s2 = "\<lparr>files = ?f2, moved_notes = 1, moved_atts = 1, errors = 0\<rparr>"
  have s2: "move_note sys dest_dir 1 n1 ?s0 = ?s2" using m1 by simp
  have da2: "?da \<in> ?f2" using n1 by simp
  have a2: "move_attachments sys dest_dir (attachments n2) ?s2 = (None, ?s2)"
    using h da2 by (simp add: single del: move_attachments.simps)
  have p2: "path n2 \<in> files ?s2" using h by auto
  from move_note_present [OF a2 p2 q1 q2, of 2]
  obtain d2 where m2: "move_note sys dest_dir 2 n2 ?s2 =
      ?s2\<lparr>files := insert d2 (files ?s2 - {path n2}), moved_notes := moved_notes ?s2 + 1\<rparr>"
    by blast
  have all: "move_all sys dest_dir [n1, n2] fs =
      \<lparr>files = insert d2 (?f2 - {path n2}), moved_notes = 2, moved_atts = 1, errors = 0\<rparr>"
    using s2 m2 by (simp add: move_all_def numeral_2_eq_2)
  show "errors (move_all sys dest_dir [n1, n2] fs) = 0" using all by simp
  show "moved_atts (move_all sys dest_dir [n1, n2] fs) = 1" using all by simp
  show "moved_notes (move_all sys dest_dir [n1, n2] fs) = 2" using all by simp
  show "joinpath dest_dir (path_name a) \<in> files (move_all sys dest_dir [n1, n2] fs)"
    using all n1 n2 by simp
qed

theorem missing_attachment_skipped_witness:
  "path_exists example_io (files collide_state) [''/'', ''v'', ''gone.png''] = Inr False \<and>
   move_attachments example_io [''/'', ''d''] [[''/'', ''v'', ''gone.png'']] collide_state
     = move_attachments example_io [''/'', ''d''] [] collide_state \<and>
   attachments note_one = [[''/'', ''v'', ''shared.png'']] \<and>
   attachments note_two = [[''/'', ''v'', ''shared.png'']] \<and>
   [''/'', ''v'', ''shared.png''] \<in> shared_files \<and>
   path note_one \<in> shared_files \<and> path note_two \<in> shared_files \<and>
   path note_one \<noteq> path note_two \<and>
   [''/'', ''v'', ''shared.png''] \<noteq> path note_one \<and>
   [''/'', ''v'', ''shared.png''] \<noteq> path note_two \<and>
   joinpath [''/'', ''d''] (path_name [''/'', ''v'', ''shared.png'']) \<notin> shared_files \<and>
   errors (move_all calm_io [''/'', ''d''] [note_one, note_two] shared_files) = 0 \<and>
   moved_atts (move_all calm_io [''/'', ''d''] [note_one, note_two] shared_files) = 1 \<and>
   moved_notes (move_all calm_io [''/'', ''d''] [note_one, note_two] shared_files) = 2 \<and>
   joinpath [''/'', ''d''] (path_name [''/'', ''v'', ''shared.png''])
     \<in> files (move_all calm_io [''/'', ''d''] [note_one, note_two] shared_files)"
proof -
  have h1: "path_exists example_io (files collide_state) [''/'', ''v'', ''gone.png''] = Inr False"
    by code_simp
  have q: "(\<forall>p. \<not> stat_raises calm_io p) \<and> (\<forall>src dst. \<not> move_raises calm_io src dst)"
    by (simp add: calm_io_def)
  have h2: "attachments note_one = [[''/'', ''v'', ''shared.png'']] \<and>
   attachments note_two = [[''/'', ''v'', ''shared.png'']] \<and>
   [''/'', ''v'', ''shared.png''] \<in> shared_files \<and>
   path note_one \<in> shared_files \<and> path note_two \<in> shared_files \<and>
   path note_one \<noteq> path note_two \<and>
   [''/'', ''v'', ''shared.png''] \<noteq> path note_one \<and>
   [''/'', ''v'', ''shared.png''] \<noteq> path note_two \<and>
   joinpath [''/'', ''d''] (path_name [''/'', ''v'', ''shared.png'']) \<notin> shared_files"
    by code_simp
  have h3: "(\<forall>p. \<not> stat_raises calm_io p) \<and> (\<forall>src dst. \<not> move_raises calm_io src dst) \<and>
   attachments note_one = [[''/'', ''v'', ''shared.png'']] \<and>
   attachments note_two = [[''/'', ''v'', ''shared.png'']] \<and>
   [''/'', ''v'', ''shared.png''] \<in> shared_files \<and>
   path note_one \<in> shared_files \<and> path note_two \<in> shared_files \<and>
   path note_one \<noteq> path note_two \<and>
   [''/'', ''v'', ''shared.png''] \<noteq> path note_one \<and>
   [''/'', ''v'', ''shared.png''] \<noteq> path note_two \<and>
   joinpath [''/'', ''d''] (path_name [''/'', ''v'', ''shared.png'']) \<notin> shared_files"
    using q h2 by (intro conjI) (elim conjE, assumption)+
  note c1 = missing_attachment_skipped
    [of example_io collide_state "[''/'', ''v'', ''gone.png'']" "[''/'', ''d'']" "[]",
     THEN conjunct1, rule_format, OF h1]
  note c2 = missing_attachment_skipped
    [of calm_io _ _ "[''/'', ''d'']" _ note_one "[''/'', ''v'', ''shared.png'']"
        note_two shared_files,
     THEN conjunct2, THEN conjunct2, rule_format, OF h3]
  show ?thesis
    using h1 h2 c1 c2 by (intro conjI) (elim conjE, assumption)+
qed

end
